theory Spec2Isabelle
  imports Main
begin

section \<open>The Postgres storage adapter (server/db/postgres/adapter.go)\<close>

text \<open>
  The adapter is a thin layer of Go around SQL statements. Each table is a list of rows
  (a record per row, one field per column the statements read or write), each statement
  is the relational operation its text denotes, with placeholder \<open>$n\<close> bound to the
  \<open>n\<close>-th argument the Go code passes, and the Go code around the statements is
  translated line by line. A statement's result order is the table's order unless the
  statement has an ORDER BY, which is a stable sort. Whether the engine accepts the
  dialect of a statement, the width of its columns and its transport failures are not
  part of the model; the errors and panics the Go code itself produces are, and so is a
  statement that cannot be bound to its arguments. Timestamps are integers and a nullable
  column is an \<open>option\<close>.
\<close>

subsection \<open>Go integers and decimal strings\<close>

text \<open>Go's \<open>int\<close> and \<open>int64\<close> are 64-bit two's complement: arithmetic wraps.\<close>

definition wrap64 :: "int \<Rightarrow> int" where
  "wrap64 x = (x + 2 ^ 63) mod 2 ^ 64 - 2 ^ 63"

definition is_digit :: "char \<Rightarrow> bool" where
  "is_digit c = (48 \<le> (of_char c :: nat) \<and> (of_char c :: nat) \<le> 57)"

definition digit_char :: "nat \<Rightarrow> char" where
  "digit_char d = char_of (48 + d)"

fun decimal :: "int \<Rightarrow> string \<Rightarrow> int" where
  "decimal acc [] = acc"
| "decimal acc (c # cs) = decimal (10 * acc + (of_char c - 48)) cs"

fun Itoa :: "nat \<Rightarrow> string" where
  "Itoa n = (if n < 10 then [digit_char n] else Itoa (n div 10) @ [digit_char (n mod 10)])"

declare Itoa.simps [simp del]

text \<open>\<open>strconv.FormatInt(n, 10)\<close>, which database/sql uses to scan a BIGINT into a string.\<close>

definition FormatInt :: "int \<Rightarrow> string" where
  "FormatInt n = (if n < 0 then CHR ''-'' # Itoa (nat (- n)) else Itoa (nat n))"

text \<open>
  \<open>strconv.ParseInt(s, 10, 64)\<close> with the error dropped, as \<open>encodeUidString\<close> calls it:
  an optional sign, then one or more decimal digits. A syntax error yields 0; a value out
  of range yields the nearest bound.
\<close>

definition ParseInt :: "string \<Rightarrow> int" where
  "ParseInt s =
     (let neg = (s \<noteq> [] \<and> hd s = CHR ''-'');
          body = (if s \<noteq> [] \<and> (hd s = CHR ''-'' \<or> hd s = CHR ''+'') then tl s else s)
      in if body = [] \<or> \<not> list_all is_digit body then 0
         else if neg then - min (decimal 0 body) (2 ^ 63)
         else min (decimal 0 body) (2 ^ 63 - 1))"

text \<open>The strings \<open>strconv.ParseInt(s, 10, 64)\<close> accepts as numbers.\<close>

definition is_numeric :: "string \<Rightarrow> bool" where
  "is_numeric s =
     (let body = (if s \<noteq> [] \<and> (hd s = CHR ''-'' \<or> hd s = CHR ''+'') then tl s else s)
      in body \<noteq> [] \<and> list_all is_digit body)"

subsection \<open>User identifiers\<close>

text \<open>
  \<open>store.EncodeUid\<close>, \<open>store.DecodeUid\<close>, \<open>types.ParseUid\<close>, \<open>Uid.String\<close> and
  \<open>Uid.IsZero\<close> are not defined in the adapter: they are parameters of every function
  that calls them, collected in a record. The type \<open>'u\<close> stands for \<open>types.Uid\<close>.
\<close>

record 'u codec =
  EncodeUid :: "int \<Rightarrow> 'u"
  DecodeUid :: "'u \<Rightarrow> int"
  ParseUid :: "string \<Rightarrow> 'u"
  UidString :: "'u \<Rightarrow> string"
  IsZero :: "'u \<Rightarrow> bool"

definition encodeUidString :: "'u codec \<Rightarrow> string \<Rightarrow> 'u" where
  "encodeUidString c str = EncodeUid c (ParseInt str)"

definition decodeUidString :: "'u codec \<Rightarrow> string \<Rightarrow> int" where
  "decodeUidString c str = DecodeUid c (ParseUid c str)"

text \<open>
  The bytes of a JSON column, by what \<open>json.Unmarshal\<close> makes of them: bytes that are
  not JSON, the JSON text \<open>null\<close> (what \<open>toJSON(nil)\<close> stores), or a JSON value, which
  is represented by its text. \<open>fromJSON\<close> returns nil for a NULL column, and what
  \<open>json.Unmarshal\<close> leaves in \<open>out\<close> otherwise: nil unless the bytes hold a value.
\<close>

datatype json_col = NotJSON string | JSONNull | JSONValue string

definition fromJSON :: "json_col option \<Rightarrow> string option" where
  "fromJSON src =
     (case src of
        None \<Rightarrow> None
      | Some (NotJSON bb) \<Rightarrow> None
      | Some JSONNull \<Rightarrow> None
      | Some (JSONValue v) \<Rightarrow> Some v)"

subsection \<open>Query options\<close>

text \<open>The fields of \<open>types.QueryOpt\<close> the adapter reads; \<open>opts == nil\<close> is \<open>None\<close>.\<close>

record 'u QueryOpt =
  opt_User :: 'u
  opt_Topic :: string
  opt_Since :: int
  opt_Before :: int
  opt_Limit :: int

subsection \<open>Messages and the deletion log\<close>

record message_row =
  m_createdat :: int
  m_updatedat :: int
  m_deletedat :: "int option"
  m_delid :: int
  m_seqid :: int
  m_topic :: string
  m_from :: int
  m_head :: "string option"
  m_content :: "json_col option"

record dellog_row =
  d_topic :: string
  d_deletedfor :: int
  d_delid :: int
  d_low :: int
  d_hi :: int






subsection \<open>Writing and reading the deletion log\<close>

text \<open>\<open>types.Range\<close> and the fields of \<open>types.DelMessage\<close>.\<close>

record Range =
  Low :: int
  Hi :: int

record DelMessage =
  dm_Topic :: string
  dm_DeletedFor :: string
  dm_DelId :: int
  dm_SeqIdRanges :: "Range list"

text \<open>
  What a call hands back besides a result: the adapter's error values, an error reported
  by the engine, and Go's run-time panic on an index out of range.
\<close>

datatype failure = ErrDuplicate | ErrNotFound | ErrEngine | PanicIndexOutOfRange

text \<open>
  The first loop of \<open>messageDeleteList\<close>: one INSERT into \<open>dellog\<close> per range, with
  \<open>Hi == 0\<close> replaced by \<open>Low + 1\<close>, and the counter \<open>seqCount\<close>. The state is the
  log and the counter.
\<close>

fun insert_ranges ::
  "string \<Rightarrow> int \<Rightarrow> int \<Rightarrow> Range list \<Rightarrow> dellog_row list \<times> int \<Rightarrow> dellog_row list \<times> int" where
  "insert_ranges topic forUser delId [] st = st"
| "insert_ranges topic forUser delId (rng # rs) (dl, seqCount) =
     (let hi = (if Hi rng = 0 then wrap64 (Low rng + 1) else Hi rng)
      in insert_ranges topic forUser delId rs
           (dl @ [\<lparr> d_topic = topic, d_deletedfor = forUser, d_delid = delId,
                    d_low = Low rng, d_hi = hi \<rparr>],
            wrap64 (seqCount + wrap64 (hi - Low rng))))"

text \<open>
  \<open>messageDeleteList\<close> inside its transaction, on the tables \<open>messages\<close> and \<open>dellog\<close>.
  With \<open>toDel == nil\<close> the second statement names \<open>$2\<close> and passes one argument, which
  the engine refuses. Otherwise the log rows are written; for \<open>DeletedFor == ""\<close> the
  condition \<open>len(toDel.SeqIdRanges) > 1 || toDel.SeqIdRanges[0].Hi == 0\<close> is evaluated
  next, and its second operand reads element 0 whenever the length is at most 1. The two
  statements that follow on \<open>filemsglinks\<close> and \<open>messages\<close> are the parameter
  \<open>hard\<close>, given the topic, the request and \<open>seqCount\<close>.
\<close>

definition messageDeleteList ::
  "'u codec \<Rightarrow> (string \<Rightarrow> DelMessage \<Rightarrow> int \<Rightarrow> message_row list \<Rightarrow> failure + message_row list)
     \<Rightarrow> string \<Rightarrow> DelMessage option \<Rightarrow> message_row list \<times> dellog_row list
     \<Rightarrow> failure + message_row list \<times> dellog_row list" where
  "messageDeleteList c hard topic toDel tabs =
     (case toDel of
        None \<Rightarrow> Inl ErrEngine
      | Some td \<Rightarrow>
          (let forUser = decodeUidString c (dm_DeletedFor td);
               st = insert_ranges topic forUser (dm_DelId td) (dm_SeqIdRanges td) (snd tabs, 0);
               run = (case hard topic td (snd st) (fst tabs) of
                        Inl e \<Rightarrow> Inl e
                      | Inr msgs \<Rightarrow> Inr (msgs, fst st))
           in if dm_DeletedFor td = [] then
                (if length (dm_SeqIdRanges td) > 1 then run
                 else (case dm_SeqIdRanges td of
                         [] \<Rightarrow> Inl PanicIndexOutOfRange
                       | r # rs \<Rightarrow> run))
              else Inr (fst tabs, fst st)))"

text \<open>
  \<open>MessageDeleteList\<close>: the transaction around it. An error rolls back; a panic leaves
  the transaction uncommitted. Either way the tables are as before.
\<close>

definition MessageDeleteList ::
  "'u codec \<Rightarrow> (string \<Rightarrow> DelMessage \<Rightarrow> int \<Rightarrow> message_row list \<Rightarrow> failure + message_row list)
     \<Rightarrow> string \<Rightarrow> DelMessage option \<Rightarrow> message_row list \<times> dellog_row list
     \<Rightarrow> failure option \<times> message_row list \<times> dellog_row list" where
  "MessageDeleteList c hard topic toDel tabs =
     (case messageDeleteList c hard topic toDel tabs of
        Inl e \<Rightarrow> (Some e, tabs)
      | Inr tabs' \<Rightarrow> (None, tabs'))"

text \<open>The statement of \<open>MessageGetDeleted\<close>.\<close>

definition select_dellog ::
  "dellog_row list \<Rightarrow> string \<Rightarrow> int \<Rightarrow> int \<Rightarrow> int \<Rightarrow> int \<Rightarrow> dellog_row list" where
  "select_dellog dl topic lower upper unum limit =
     take (nat limit)
       (sort_key d_delid
          (filter (\<lambda>d. d_topic d = topic \<and> lower \<le> d_delid d \<and> d_delid d \<le> upper
                       \<and> (d_deletedfor d = 0 \<or> d_deletedfor d = unum)) dl))"

text \<open>
  The loop of \<open>MessageGetDeleted\<close> over the rows; the state is \<open>dmsg\<close> and \<open>dmsgs\<close>.
  \<open>dmsg.DeletedFor\<close> is assigned only for a positive \<open>deletedfor\<close>, and
  \<open>dmsg.SeqIdRanges\<close> is only ever appended to.
\<close>

fun scan_dellog ::
  "'u codec \<Rightarrow> dellog_row list \<Rightarrow> DelMessage \<times> DelMessage list \<Rightarrow> DelMessage \<times> DelMessage list" where
  "scan_dellog c [] st = st"
| "scan_dellog c (row # rows) (dmsg, dmsgs) =
     (let dmsgs1 = (if d_delid row \<noteq> dm_DelId dmsg \<and> dm_DelId dmsg > 0
                    then dmsgs @ [dmsg] else dmsgs);
          dmsg1 = (if d_delid row \<noteq> dm_DelId dmsg
                   then dmsg\<lparr> dm_DelId := d_delid row, dm_Topic := d_topic row,
                              dm_DeletedFor :=
                                (if d_deletedfor row > 0
                                 then UidString c (EncodeUid c (d_deletedfor row))
                                 else dm_DeletedFor dmsg) \<rparr>
                   else dmsg);
          hi = (if d_hi row \<le> wrap64 (d_low row + 1) then 0 else d_hi row)
      in scan_dellog c rows
           (dmsg1\<lparr> dm_SeqIdRanges := dm_SeqIdRanges dmsg1 @ [\<lparr> Low = d_low row, Hi = hi \<rparr>] \<rparr>,
            dmsgs1))"

definition MessageGetDeleted ::
  "'u codec \<Rightarrow> int \<Rightarrow> dellog_row list \<Rightarrow> string \<Rightarrow> 'u \<Rightarrow> 'v QueryOpt option \<Rightarrow> DelMessage list" where
  "MessageGetDeleted c maxResults dl topic forUser opts =
     (let lower = (case opts of None \<Rightarrow> 0
                   | Some opt \<Rightarrow> if opt_Since opt > 0 then opt_Since opt else 0);
          upper = (case opts of None \<Rightarrow> 2 ^ 31
                   | Some opt \<Rightarrow> if opt_Before opt > 1 then opt_Before opt - 1 else 2 ^ 31);
          limit = (case opts of None \<Rightarrow> maxResults
                   | Some opt \<Rightarrow> if opt_Limit opt > 0 \<and> opt_Limit opt < maxResults
                                then opt_Limit opt else maxResults);
          rows = select_dellog dl topic lower upper (DecodeUid c forUser) limit;
          st = scan_dellog c rows
                 (\<lparr> dm_Topic = [], dm_DeletedFor = [], dm_DelId = 0, dm_SeqIdRanges = [] \<rparr>, [])
      in if dm_DelId (fst st) > 0 then snd st @ [fst st] else snd st)"

text \<open>
  The form in which \<open>MessageGetDeleted\<close> hands a range back: a range holding at most
  one sequence id is the marker \<open>{Low, 0}\<close>.
\<close>

definition read_form :: "Range \<Rightarrow> Range" where
  "read_form r = (if Hi r = 0 \<or> Hi r \<le> wrap64 (Low r + 1) then r\<lparr> Hi := 0 \<rparr> else r)"

subsection \<open>Credentials\<close>

record cred_row =
  cr_createdat :: int
  cr_updatedat :: int
  cr_deletedat :: "int option"
  cr_method :: string
  cr_value :: string
  cr_synthetic :: string
  cr_userid :: int
  cr_resp :: string
  cr_done :: bool
  cr_retries :: int

text \<open>The fields of \<open>types.Credential\<close>.\<close>

record Credential =
  cred_CreatedAt :: int
  cred_UpdatedAt :: int
  cred_User :: string
  cred_Method :: string
  cred_Value :: string
  cred_Resp :: string
  cred_Done :: bool

text \<open>
  The statements of \<open>CredUpsert\<close>, each as its effect on one row:
  \<open>UPDATE credentials SET deletedat=$1 WHERE userid=$2 AND method=$3 AND done=false\<close>,
  \<open>UPDATE credentials SET updatedat=$1,deletedat=NULL,resp=$2,done=0 WHERE synthetic=$3\<close>,
  and the row of the INSERT (\<open>deletedat\<close> and \<open>retries\<close> take their defaults).
\<close>

definition cred_deactivate :: "int \<Rightarrow> int \<Rightarrow> string \<Rightarrow> cred_row \<Rightarrow> cred_row" where
  "cred_deactivate now userId method r =
     (if cr_userid r = userId \<and> cr_method r = method \<and> cr_done r = False
      then r\<lparr> cr_deletedat := Some now \<rparr> else r)"

definition cred_undelete :: "Credential \<Rightarrow> string \<Rightarrow> cred_row \<Rightarrow> cred_row" where
  "cred_undelete cred synth r =
     (if cr_synthetic r = synth
      then r\<lparr> cr_updatedat := cred_UpdatedAt cred, cr_deletedat := None,
              cr_resp := cred_Resp cred, cr_done := False \<rparr>
      else r)"

definition cred_new_row :: "Credential \<Rightarrow> string \<Rightarrow> int \<Rightarrow> cred_row" where
  "cred_new_row cred synth userId =
     \<lparr> cr_createdat = cred_CreatedAt cred, cr_updatedat = cred_UpdatedAt cred,
       cr_deletedat = None, cr_method = cred_Method cred, cr_value = cred_Value cred,
       cr_synthetic = synth, cr_userid = userId, cr_resp = cred_Resp cred,
       cr_done = cred_Done cred, cr_retries = 0 \<rparr>"

text \<open>
  \<open>CredUpsert\<close> at time \<open>now\<close>. The result is the pair the function returns and the
  table afterwards. The duplicate found by the first SELECT returns before any change.
  The INSERT fails on \<open>UNIQUE(synthetic)\<close>; \<open>isDupe\<close> returns false for every
  error, so that failure is handed on as it is and the transaction is rolled back.
\<close>

definition CredUpsert ::
  "'u codec \<Rightarrow> int \<Rightarrow> Credential \<Rightarrow> cred_row list \<Rightarrow> (bool \<times> failure option) \<times> cred_row list" where
  "CredUpsert c now cred tab =
     (let userId = decodeUidString c (cred_User cred);
          synth = cred_Method cred @ '':'' @ cred_Value cred;
          insert = (\<lambda>synth t.
             if list_ex (\<lambda>r. cr_synthetic r = synth) t then ((True, Some ErrEngine), tab)
             else ((True, None), t @ [cred_new_row cred synth userId]))
      in if \<not> cred_Done cred then
           (if list_ex (\<lambda>r. cr_synthetic r = synth) tab then ((False, Some ErrDuplicate), tab)
            else
              (let synth2 = cred_User cred @ '':'' @ synth;
                   tab1 = map (cred_deactivate now userId (cred_Method cred)) tab;
                   tab2 = map (cred_undelete cred synth2) tab1
               in if length (filter (\<lambda>r. cr_synthetic r = synth2) tab1) > 0
                  then ((False, None), tab2)
                  else insert synth2 tab2))
         else insert synth (filter (\<lambda>r. cr_synthetic r \<noteq> cred_User cred @ '':'' @ synth) tab))"

text \<open>
  \<open>credDel\<close> builds the text of its statements. \<open>strings.Replace(s, old, new, 1)\<close>
  replaces the first occurrence of \<open>old\<close> (which is never empty here).
\<close>

fun is_prefix :: "string \<Rightarrow> string \<Rightarrow> bool" where
  "is_prefix [] s = True"
| "is_prefix (p # ps) [] = False"
| "is_prefix (p # ps) (c # cs) = (p = c \<and> is_prefix ps cs)"

fun Replace1 :: "string \<Rightarrow> string \<Rightarrow> string \<Rightarrow> string" where
  "Replace1 [] old new = []"
| "Replace1 (c # cs) old new =
     (if is_prefix old (c # cs) then new @ drop (length old) (c # cs)
      else c # Replace1 cs old new)"

text \<open>
  The loop \<open>for i := 1; i <= queryVar; i++\<close> over the constraints, from \<open>i\<close> for
  \<open>n\<close> more rounds.
\<close>

fun renumber :: "nat \<Rightarrow> nat \<Rightarrow> string \<Rightarrow> string" where
  "renumber 0 i constraints = constraints"
| "renumber (Suc n) i constraints =
     renumber n (Suc i) (Replace1 constraints (CHR ''$'' # Itoa i) (CHR ''$'' # Itoa (Suc i)))"

text \<open>An argument of a statement, and the column of \<open>credentials\<close> a constraint names.\<close>

datatype sqlval = IntV int | TextV string | TimeV int

definition cred_col :: "cred_row \<Rightarrow> string \<Rightarrow> sqlval option" where
  "cred_col r col =
     (if col = ''userid'' then Some (IntV (cr_userid r))
      else if col = ''method'' then Some (TextV (cr_method r))
      else if col = ''value'' then Some (TextV (cr_value r))
      else None)"

text \<open>
  Reading a constraint text \<open>" WHERE col=$n AND col=$n ..."\<close> back into its
  conditions; the first argument bounds the number of conditions and is the length of
  the text.
\<close>

fun parse_conds :: "nat \<Rightarrow> string \<Rightarrow> (string \<times> nat) list option" where
  "parse_conds 0 s = None"
| "parse_conds (Suc k) s =
     (let col = takeWhile (\<lambda>c. c \<noteq> CHR ''='') s;
          r1 = dropWhile (\<lambda>c. c \<noteq> CHR ''='') s;
          ds = takeWhile is_digit (drop 2 r1);
          r2 = dropWhile is_digit (drop 2 r1)
      in if col = [] \<or> take 2 r1 \<noteq> ''=$'' \<or> ds = [] then None
         else if r2 = [] then Some [(col, nat (decimal 0 ds))]
         else if take 5 r2 = '' AND ''
              then map_option ((#) (col, nat (decimal 0 ds))) (parse_conds k (drop 5 r2))
              else None)"

definition parse_where :: "string \<Rightarrow> (string \<times> nat) list option" where
  "parse_where s =
     (if take 7 s = '' WHERE '' then parse_conds (length s) (drop 7 s) else None)"

text \<open>
  Whether a row satisfies the conditions under the arguments: \<open>$n\<close> is the \<open>n\<close>-th
  argument, and a column equals an argument when both are the same value of the same
  type. \<open>None\<close>: the statement names a column or an argument that does not exist.
\<close>

fun conds_hold :: "(string \<times> nat) list \<Rightarrow> sqlval list \<Rightarrow> cred_row \<Rightarrow> bool option" where
  "conds_hold [] args r = Some True"
| "conds_hold ((col, n) # cs) args r =
     (case cred_col r col of
        None \<Rightarrow> None
      | Some v \<Rightarrow>
          if n = 0 \<or> n > length args then None
          else (case conds_hold cs args r of
                  None \<Rightarrow> None
                | Some b \<Rightarrow> Some (v = args ! (n - 1) \<and> b)))"

text \<open>
  \<open>DELETE FROM credentials\<close> and \<open>UPDATE credentials SET deletedat=$1\<close> followed by a
  constraint text; \<open>extra\<close> is the fixed tail \<open>AND (done=true OR retries=0)\<close> of the
  second DELETE.
\<close>

definition exec_delete ::
  "string \<Rightarrow> sqlval list \<Rightarrow> (cred_row \<Rightarrow> bool) \<Rightarrow> cred_row list \<Rightarrow> failure + cred_row list" where
  "exec_delete constraints args extra tab =
     (case parse_where constraints of
        None \<Rightarrow> Inl ErrEngine
      | Some cs \<Rightarrow>
          if list_ex (\<lambda>r. conds_hold cs args r = None) tab then Inl ErrEngine
          else Inr (filter (\<lambda>r. \<not> (conds_hold cs args r = Some True \<and> extra r)) tab))"

definition exec_set_deletedat ::
  "string \<Rightarrow> sqlval list \<Rightarrow> cred_row list \<Rightarrow> failure + cred_row list" where
  "exec_set_deletedat constraints args tab =
     (case parse_where constraints of
        None \<Rightarrow> Inl ErrEngine
      | Some cs \<Rightarrow>
          (case args of
             TimeV t # rest \<Rightarrow>
               if list_ex (\<lambda>r. conds_hold cs args r = None) tab then Inl ErrEngine
               else Inr (map (\<lambda>r. if conds_hold cs args r = Some True
                                   then r\<lparr> cr_deletedat := Some t \<rparr> else r) tab)
           | _ \<Rightarrow> Inl ErrEngine))"

definition credDel ::
  "'u codec \<Rightarrow> int \<Rightarrow> 'u \<Rightarrow> string \<Rightarrow> string \<Rightarrow> cred_row list \<Rightarrow> failure + cred_row list" where
  "credDel c now uid method val tab =
     (let constraints0 = '' WHERE userid=$1'';
          args0 = [IntV (DecodeUid c uid)];
          queryVar = (if method \<noteq> [] then (if val \<noteq> [] then 3 else 2) else 1);
          constraints =
            (if method \<noteq> [] then
               (if val \<noteq> []
                then (constraints0 @ '' AND method=$'' @ Itoa 2) @ '' AND value=$'' @ Itoa 3
                else constraints0 @ '' AND method=$'' @ Itoa 2)
             else constraints0);
          args = (if method \<noteq> [] then
                    (if val \<noteq> [] then args0 @ [TextV method] @ [TextV val]
                     else args0 @ [TextV method])
                  else args0)
      in if method = [] then exec_delete constraints args (\<lambda>r. True) tab
         else (case exec_delete constraints args (\<lambda>r. cr_done r \<or> cr_retries r = 0) tab of
                 Inl e \<Rightarrow> Inl e
               | Inr tab1 \<Rightarrow>
                   exec_set_deletedat (renumber queryVar 1 constraints) (TimeV now # args) tab1))"

text \<open>\<open>CredDel\<close>: the transaction around \<open>credDel\<close>; an error rolls back.\<close>

definition CredDel ::
  "'u codec \<Rightarrow> int \<Rightarrow> 'u \<Rightarrow> string \<Rightarrow> string \<Rightarrow> cred_row list \<Rightarrow> failure option \<times> cred_row list" where
  "CredDel c now uid method val tab =
     (case credDel c now uid method val tab of
        Inl e \<Rightarrow> (Some e, tab)
      | Inr tab' \<Rightarrow> (None, tab'))"

subsection \<open>Users, topics and subscriptions\<close>

record user_row =
  u_id :: int
  u_createdat :: int
  u_updatedat :: int
  u_deletedat :: "int option"
  u_access :: "string \<times> string"
  u_lastseen :: "int option"
  u_useragent :: string
  u_public :: "json_col option"
  u_tags :: "string list"

record topic_row =
  t_createdat :: int
  t_updatedat :: int
  t_deletedat :: "int option"
  t_touchedat :: "int option"
  t_name :: string
  t_owner :: int
  t_access :: "string \<times> string"
  t_seqid :: int
  t_delid :: int
  t_public :: "json_col option"
  t_tags :: "string list"

record subscription_row =
  s_createdat :: int
  s_updatedat :: int
  s_deletedat :: "int option"
  s_userid :: int
  s_topic :: string
  s_delid :: int
  s_recvseqid :: int
  s_readseqid :: int
  s_modewant :: string
  s_modegiven :: string
  s_private :: "json_col option"

text \<open>
  \<open>types.Subscription\<close>, \<open>types.User\<close> and \<open>types.Topic\<close> as the adapter fills them.
  \<open>Private\<close> is an \<open>interface{}\<close>: nil, a decoded JSON value, or the list of tags
  that \<open>FindUsers\<close> and \<open>FindTopics\<close> put there. \<open>sub_public\<close> and
  \<open>sub_modeDefault\<close> are the fields behind \<open>SetPublic\<close>/\<open>GetPublic\<close> and
  \<open>SetDefaultAccess\<close>; \<open>sub_touchedAt\<close>, \<open>sub_seqId\<close>, \<open>sub_with\<close>,
  \<open>sub_lastSeen\<close> and \<open>sub_userAgent\<close> are those behind \<open>SetTouchedAt\<close>,
  \<open>SetSeqId\<close>, \<open>SetWith\<close> and \<open>SetLastSeenAndUA\<close>. \<open>sub_Id\<close> is the \<open>Id\<close> of
  the embedded \<open>ObjHeader\<close>, which no statement of the adapter selects for a subscription.
\<close>

datatype private_val = NoPrivate | PrivateJSON string | PrivateTags "string list"

record Subscription =
  sub_Id :: string
  sub_CreatedAt :: int
  sub_UpdatedAt :: int
  sub_DeletedAt :: "int option"
  sub_User :: string
  sub_Topic :: string
  sub_DelId :: int
  sub_RecvSeqId :: int
  sub_ReadSeqId :: int
  sub_ModeWant :: string
  sub_ModeGiven :: string
  sub_Private :: private_val
  sub_public :: "string option"
  sub_modeDefault :: "(string \<times> string) option"
  sub_touchedAt :: "int option"
  sub_seqId :: int
  sub_with :: string
  sub_lastSeen :: "int option"
  sub_userAgent :: string



definition private_of :: "json_col option \<Rightarrow> private_val" where
  "private_of src = (case fromJSON src of None \<Rightarrow> NoPrivate | Some j \<Rightarrow> PrivateJSON j)"

text \<open>The zero value of \<open>types.Subscription\<close> (\<open>var sub t.Subscription\<close>).\<close>

definition zero_Subscription :: Subscription where
  "zero_Subscription =
     \<lparr> sub_Id = [], sub_CreatedAt = 0, sub_UpdatedAt = 0, sub_DeletedAt = None, sub_User = [],
       sub_Topic = [], sub_DelId = 0, sub_RecvSeqId = 0, sub_ReadSeqId = 0, sub_ModeWant = [],
       sub_ModeGiven = [], sub_Private = NoPrivate, sub_public = None, sub_modeDefault = None,
       sub_touchedAt = None, sub_seqId = 0, sub_with = [], sub_lastSeen = None,
       sub_userAgent = [] \<rparr>"

text \<open>
  \<open>types.GetTopicCat\<close> is not defined in the adapter: the functions that call it take it
  as the parameter \<open>cat\<close>. \<open>Subscription.Uid\<close> is the parsed \<open>User\<close> field.
\<close>

datatype topic_cat = TopicCatMe | TopicCatFnd | TopicCatP2P | TopicCatGrp

definition sub_Uid :: "'u codec \<Rightarrow> Subscription \<Rightarrow> 'u" where
  "sub_Uid c sub = ParseUid c (sub_User sub)"



text \<open>
  A row of \<open>subscriptions\<close> scanned into a \<open>Subscription\<close>, with \<open>userid AS user\<close>
  scanned into the string \<open>User\<close>.
\<close>

definition scan_subscription :: "subscription_row \<Rightarrow> Subscription" where
  "scan_subscription r =
     zero_Subscription
       \<lparr> sub_CreatedAt := s_createdat r, sub_UpdatedAt := s_updatedat r,
         sub_DeletedAt := s_deletedat r, sub_User := FormatInt (s_userid r),
         sub_Topic := s_topic r, sub_DelId := s_delid r, sub_RecvSeqId := s_recvseqid r,
         sub_ReadSeqId := s_readseqid r, sub_ModeWant := s_modewant r,
         sub_ModeGiven := s_modegiven r \<rparr>"


definition query_limit :: "int \<Rightarrow> 'v QueryOpt option \<Rightarrow> int" where
  "query_limit maxResults opts =
     (case opts of None \<Rightarrow> maxResults
      | Some opt \<Rightarrow> if opt_Limit opt > 0 \<and> opt_Limit opt < maxResults
                   then opt_Limit opt else maxResults)"



text \<open>
  \<open>UsersForTopic\<close>. The statement joins each subscription of the topic with its user;
  without \<open>keepDeleted\<close> it drops deleted users, and deleted subscriptions unless the
  topic is P2P; the filter on \<open>opts.User\<close> is in the statement unless the topic is P2P.
\<close>

definition users_for_topic_rows ::
  "'u codec \<Rightarrow> int \<Rightarrow> subscription_row list \<Rightarrow> user_row list \<Rightarrow> topic_cat \<Rightarrow> string \<Rightarrow> bool
     \<Rightarrow> 'u QueryOpt option \<Rightarrow> (subscription_row \<times> user_row) list" where
  "users_for_topic_rows c maxResults subs users tcat topic keepDeleted opts =
     take (nat (query_limit maxResults opts))
       (filter (\<lambda>(s, u). s_topic s = topic
                  \<and> (keepDeleted \<or> (u_deletedat u = None
                                      \<and> (tcat = TopicCatP2P \<or> s_deletedat s = None)))
                  \<and> (case opts of None \<Rightarrow> True
                      | Some opt \<Rightarrow> IsZero c (opt_User opt) \<or> tcat = TopicCatP2P
                                     \<or> s_userid s = DecodeUid c (opt_User opt)))
          (concat (map (\<lambda>s. map (\<lambda>u. (s, u)) (filter (\<lambda>u. u_id u = s_userid s) users)) subs)))"

definition scan_user_sub :: "'u codec \<Rightarrow> subscription_row \<times> user_row \<Rightarrow> Subscription" where
  "scan_user_sub c row =
     (scan_subscription (fst row))
       \<lparr> sub_User := UidString c (encodeUidString c (FormatInt (s_userid (fst row)))),
         sub_Private := private_of (s_private (fst row)),
         sub_public := fromJSON (u_public (snd row)) \<rparr>"

text \<open>
  The swap of the public values of a P2P topic, and the test of the loop that removes
  deleted and unneeded subscriptions; \<open>oneUser\<close> is \<open>None\<close> while it is the zero
  identifier.
\<close>

definition swap_public :: "Subscription list \<Rightarrow> Subscription list" where
  "swap_public subs =
     (case subs of
        [] \<Rightarrow> []
      | [a] \<Rightarrow> [a\<lparr> sub_public := None \<rparr>]
      | a # b # rest \<Rightarrow> a\<lparr> sub_public := sub_public b \<rparr> # b\<lparr> sub_public := sub_public a \<rparr> # rest)"

definition users_keep :: "'u codec \<Rightarrow> bool \<Rightarrow> 'u option \<Rightarrow> Subscription \<Rightarrow> bool" where
  "users_keep c keepDeleted oneUser sub =
     (\<not> ((sub_DeletedAt sub \<noteq> None \<and> \<not> keepDeleted)
         \<or> (case oneUser of None \<Rightarrow> False | Some w \<Rightarrow> sub_Uid c sub \<noteq> w)))"

definition UsersForTopic ::
  "'u codec \<Rightarrow> (string \<Rightarrow> topic_cat) \<Rightarrow> int \<Rightarrow> subscription_row list \<Rightarrow> user_row list
     \<Rightarrow> string \<Rightarrow> bool \<Rightarrow> 'u QueryOpt option \<Rightarrow> Subscription list" where
  "UsersForTopic c cat maxResults subs users topic keepDeleted opts =
     (let tcat = cat topic;
          oneUser = (case opts of None \<Rightarrow> None
                     | Some opt \<Rightarrow> if \<not> IsZero c (opt_User opt) then Some (opt_User opt) else None);
          fetched = map (scan_user_sub c)
                      (users_for_topic_rows c maxResults subs users tcat topic keepDeleted opts)
      in if tcat = TopicCatP2P \<and> length fetched > 0 then
           (if \<not> keepDeleted \<or> oneUser \<noteq> None
            then filter (users_keep c keepDeleted oneUser) (swap_public fetched)
            else swap_public fetched)
         else fetched)"

text \<open>
  \<open>TopicsForUser\<close>. The functions of the package \<open>types\<close> that it calls and that are not
  defined in the adapter are parameters: \<open>ParseP2P\<close> (its error is dropped),
  \<open>Uid.P2PName\<close>, \<open>Uid.UserId\<close> and \<open>ObjHeader.MergeTimes\<close>, which is handed the header
  of the subscription and the header of a topic or of a user, and leaves the new header of
  the subscription. The second and third statements are built by \<open>sqlx.In\<close>, which is
  not in the adapter either: they are read as \<open>name IN\<close> the list \<open>topq\<close> and
  \<open>id IN\<close> the list \<open>usrq\<close>.
\<close>

record ObjHeader =
  oh_Id :: string
  oh_CreatedAt :: int
  oh_UpdatedAt :: int
  oh_DeletedAt :: "int option"

record 'u types_fns =
  ParseP2P :: "string \<Rightarrow> 'u \<times> 'u"
  P2PName :: "'u \<Rightarrow> 'u \<Rightarrow> string"
  UserId :: "'u \<Rightarrow> string"
  MergeTimes :: "ObjHeader \<Rightarrow> ObjHeader \<Rightarrow> ObjHeader"

text \<open>\<open>sub.ObjHeader.MergeTimes(&h2)\<close>.\<close>

definition merge_times :: "'u types_fns \<Rightarrow> Subscription \<Rightarrow> ObjHeader \<Rightarrow> Subscription" where
  "merge_times ty sub h2 =
     (let h = MergeTimes ty
                \<lparr> oh_Id = sub_Id sub, oh_CreatedAt = sub_CreatedAt sub,
                  oh_UpdatedAt = sub_UpdatedAt sub, oh_DeletedAt = sub_DeletedAt sub \<rparr> h2
      in sub\<lparr> sub_Id := oh_Id h, sub_CreatedAt := oh_CreatedAt h,
               sub_UpdatedAt := oh_UpdatedAt h, sub_DeletedAt := oh_DeletedAt h \<rparr>)"






subsection \<open>Search by tags\<close>

record usertag_row =
  ut_userid :: int
  ut_tag :: string

record topictag_row =
  tt_topic :: string
  tt_tag :: string

text \<open>
  The statement of \<open>FindUsers\<close> and of \<open>FindTopics\<close>, over the entities that are not
  deleted, given what the join produces for an entity: \<open>joined e\<close> is the list of tags
  of the index rows of \<open>e\<close>. Per entity, the rows that pass
  \<open>WHERE tag IN (req, opt)\<close> form its group (an entity with none has no group),
  \<open>matches\<close> is \<open>COUNT(*)\<close> of the group, the HAVING clause, present when
  \<open>len(req) > 0\<close>, compares the number of rows of the group whose tag is in \<open>req\<close>
  with \<open>len(req)\<close>, and the groups are ordered by \<open>matches\<close>, descending.
\<close>

definition tag_groups ::
  "'e list \<Rightarrow> ('e \<Rightarrow> string list) \<Rightarrow> string list \<Rightarrow> string list \<Rightarrow> int \<Rightarrow> ('e \<times> nat) list" where
  "tag_groups entities joined req opt limit =
     take (nat limit)
       (sort_key (\<lambda>g. - int (snd g))
          (filter (\<lambda>g. req = []
                        \<or> length (filter (\<lambda>t. t \<in> set req)
                                    (filter (\<lambda>t. t \<in> set (req @ opt)) (joined (fst g))))
                            \<ge> length req)
             (filter (\<lambda>g. snd g > 0)
                (map (\<lambda>e. (e, length (filter (\<lambda>t. t \<in> set (req @ opt)) (joined e))))
                   entities))))"

definition user_index_tags :: "usertag_row list \<Rightarrow> user_row \<Rightarrow> string list" where
  "user_index_tags tags u = map ut_tag (filter (\<lambda>t. ut_userid t = u_id u) tags)"

definition topic_index_tags :: "topictag_row list \<Rightarrow> topic_row \<Rightarrow> string list" where
  "topic_index_tags tags t = map tt_tag (filter (\<lambda>r. tt_topic r = t_name t) tags)"

text \<open>
  The row loops of \<open>FindUsers\<close> and \<open>FindTopics\<close>; \<open>index\<close> holds the tags of
  \<open>req\<close> and \<open>opt\<close>, and \<open>Private\<close> receives the entity's own tags found in it.
\<close>

definition found_user :: "'u codec \<Rightarrow> string list \<Rightarrow> user_row \<Rightarrow> Subscription" where
  "found_user c index u =
     zero_Subscription
       \<lparr> sub_CreatedAt := u_createdat u, sub_UpdatedAt := u_updatedat u,
         sub_User := UidString c (EncodeUid c (u_id u)),
         sub_Private := PrivateTags (filter (\<lambda>tag. tag \<in> set index) (u_tags u)),
         sub_public := fromJSON (u_public u), sub_modeDefault := Some (u_access u) \<rparr>"

definition found_topic :: "string list \<Rightarrow> topic_row \<Rightarrow> Subscription" where
  "found_topic index t =
     zero_Subscription
       \<lparr> sub_CreatedAt := t_createdat t, sub_UpdatedAt := t_updatedat t,
         sub_Topic := t_name t,
         sub_Private := PrivateTags (filter (\<lambda>tag. tag \<in> set index) (t_tags t)),
         sub_public := fromJSON (t_public t), sub_modeDefault := Some (t_access t) \<rparr>"

definition find_users_rows ::
  "int \<Rightarrow> user_row list \<Rightarrow> usertag_row list \<Rightarrow> string list \<Rightarrow> string list
     \<Rightarrow> (user_row \<times> nat) list" where
  "find_users_rows maxResults users tags req opt =
     tag_groups (filter (\<lambda>u. u_deletedat u = None) users) (user_index_tags tags) req opt
       maxResults"

definition find_topics_rows ::
  "int \<Rightarrow> topic_row list \<Rightarrow> topictag_row list \<Rightarrow> string list \<Rightarrow> string list
     \<Rightarrow> (topic_row \<times> nat) list" where
  "find_topics_rows maxResults topics tags req opt =
     tag_groups (filter (\<lambda>t. t_deletedat t = None) topics) (topic_index_tags tags) req opt
       maxResults"

definition FindUsers ::
  "'u codec \<Rightarrow> int \<Rightarrow> user_row list \<Rightarrow> usertag_row list \<Rightarrow> 'u \<Rightarrow> string list \<Rightarrow> string list
     \<Rightarrow> Subscription list" where
  "FindUsers c maxResults users tags uid req opt =
     map (\<lambda>g. found_user c (req @ opt) (fst g))
       (filter (\<lambda>g. u_id (fst g) \<noteq> DecodeUid c uid)
          (find_users_rows maxResults users tags req opt))"

definition FindTopics ::
  "int \<Rightarrow> topic_row list \<Rightarrow> topictag_row list \<Rightarrow> string list \<Rightarrow> string list
     \<Rightarrow> Subscription list" where
  "FindTopics maxResults topics tags req opt =
     map (\<lambda>g. found_topic (req @ opt) (fst g))
       (find_topics_rows maxResults topics tags req opt)"

subsection \<open>The contract of the identifier codec\<close>

text \<open>
  Modelled from the spec: the identifier codec (\<open>store.EncodeUid\<close>, \<open>store.DecodeUid\<close>,
  \<open>types.ParseUid\<close> and \<open>Uid.String\<close>) is not in the adapter. The spec's
  \<open>encode(numeric) -> opaque\<close> is the string of the encoded identifier, its
  \<open>decode(opaque) -> numeric\<close> is \<open>decodeUidString\<close>; they "are mutual inverses for all
  valid numeric ids \<open>\<ge> 1\<close>", and "decode of a malformed string returns the zero
  identifier and no error". A valid id is a positive 64-bit integer; a malformed string is
  one that is not the opaque form of a valid id.
\<close>

definition valid_id :: "int \<Rightarrow> bool" where
  "valid_id n = (1 \<le> n \<and> n < 2 ^ 63)"

definition opaque :: "'u codec \<Rightarrow> int \<Rightarrow> string" where
  "opaque c n = UidString c (EncodeUid c n)"

definition codec_contract :: "'u codec \<Rightarrow> bool" where
  "codec_contract c =
     ((\<forall>n. valid_id n \<longrightarrow> decodeUidString c (opaque c n) = n)
      \<and> (\<forall>s. (\<forall>n. valid_id n \<longrightarrow> s \<noteq> opaque c n) \<longrightarrow> decodeUidString c s = 0))"

subsection \<open>A concrete identifier codec and sample tables\<close>

text \<open>
  Used to instantiate the theorems below at concrete inputs: identifiers are the numeric
  keys themselves, written in decimal; a string that is not the decimal form of a
  positive number parses to the zero identifier.
\<close>

definition plain_codec :: "int codec" where
  "plain_codec =
     \<lparr> EncodeUid = (\<lambda>n. n), DecodeUid = (\<lambda>u. u),
       ParseUid = (\<lambda>s. if FormatInt (ParseInt s) = s \<and> 1 \<le> ParseInt s then ParseInt s else 0),
       UidString = FormatInt, IsZero = (\<lambda>u. u = 0) \<rparr>"

definition sample_message :: "int \<Rightarrow> message_row" where
  "sample_message s =
     \<lparr> m_createdat = 100, m_updatedat = 100, m_deletedat = None, m_delid = 0, m_seqid = s,
       m_topic = ''grpT'', m_from = 7, m_head = None, m_content = Some (JSONValue ''hi'') \<rparr>"

definition sample_messages :: "message_row list" where
  "sample_messages = map sample_message [1, 2, 3, 4, 5]"


definition sample_request :: DelMessage where
  "sample_request =
     \<lparr> dm_Topic = ''grpT'', dm_DeletedFor = ''1'', dm_DelId = 1,
       dm_SeqIdRanges = [\<lparr> Low = 2, Hi = 4 \<rparr>, \<lparr> Low = 7, Hi = 0 \<rparr>, \<lparr> Low = 9, Hi = 10 \<rparr>] \<rparr>"

definition sample_hard ::
  "string \<Rightarrow> DelMessage \<Rightarrow> int \<Rightarrow> message_row list \<Rightarrow> failure + message_row list" where
  "sample_hard topic td seqCount msgs = Inr msgs"

definition sample_cred_row :: cred_row where
  "sample_cred_row =
     \<lparr> cr_createdat = 100, cr_updatedat = 100, cr_deletedat = None, cr_method = ''email'',
       cr_value = ''a@b.c'', cr_synthetic = ''1:email:a@b.c'', cr_userid = 1, cr_resp = ''123'',
       cr_done = False, cr_retries = 1 \<rparr>"

definition sample_cred :: Credential where
  "sample_cred =
     \<lparr> cred_CreatedAt = 100, cred_UpdatedAt = 100, cred_User = ''1'', cred_Method = ''email'',
       cred_Value = ''a@b.c'', cred_Resp = ''123'', cred_Done = False \<rparr>"

definition sample_confirmed_row :: cred_row where
  "sample_confirmed_row =
     \<lparr> cr_createdat = 50, cr_updatedat = 60, cr_deletedat = None, cr_method = ''email'',
       cr_value = ''a@b.c'', cr_synthetic = ''email:a@b.c'', cr_userid = 2, cr_resp = ''999'',
       cr_done = True, cr_retries = 0 \<rparr>"

definition sample_old_row :: cred_row where
  "sample_old_row =
     \<lparr> cr_createdat = 50, cr_updatedat = 60, cr_deletedat = None, cr_method = ''email'',
       cr_value = ''old@b.c'', cr_synthetic = ''1:email:old@b.c'', cr_userid = 1,
       cr_resp = ''777'', cr_done = False, cr_retries = 2 \<rparr>"

definition sample_cat :: "string \<Rightarrow> topic_cat" where
  "sample_cat topic = (if take 3 topic = ''p2p'' then TopicCatP2P else TopicCatGrp)"

definition sample_user :: "int \<Rightarrow> string \<Rightarrow> string list \<Rightarrow> user_row" where
  "sample_user n pub tags =
     \<lparr> u_id = n, u_createdat = 10, u_updatedat = 20, u_deletedat = None,
       u_access = (''JRWPA'', ''N''), u_lastseen = None, u_useragent = ''cli'',
       u_public = Some (JSONValue pub), u_tags = tags \<rparr>"

definition sample_users :: "user_row list" where
  "sample_users =
     [sample_user 1 ''alice'' [''email:a@b.c'', ''tel:1''],
      sample_user 2 ''bob'' [''email:b@b.c'', ''tel:1''],
      sample_user 3 ''carol'' [''email:a@b.c'']]"

definition sample_usertags :: "usertag_row list" where
  "sample_usertags =
     [\<lparr> ut_userid = 1, ut_tag = ''email:a@b.c'' \<rparr>, \<lparr> ut_userid = 1, ut_tag = ''tel:1'' \<rparr>,
      \<lparr> ut_userid = 2, ut_tag = ''email:b@b.c'' \<rparr>, \<lparr> ut_userid = 2, ut_tag = ''tel:1'' \<rparr>,
      \<lparr> ut_userid = 3, ut_tag = ''email:a@b.c'' \<rparr>]"

definition sample_sub :: "int \<Rightarrow> string \<Rightarrow> int option \<Rightarrow> subscription_row" where
  "sample_sub n topic del =
     \<lparr> s_createdat = 30, s_updatedat = 40, s_deletedat = del, s_userid = n, s_topic = topic,
       s_delid = 0, s_recvseqid = 0, s_readseqid = 0, s_modewant = ''JRWPA'',
       s_modegiven = ''JRWPA'', s_private = None \<rparr>"

definition sample_subs :: "subscription_row list" where
  "sample_subs = [sample_sub 1 ''p2pAB'' None, sample_sub 2 ''p2pAB'' None,
                  sample_sub 3 ''grpT'' (Some 300)]"

definition sample_topic :: "string \<Rightarrow> int option \<Rightarrow> string list \<Rightarrow> topic_row" where
  "sample_topic name del tags =
     \<lparr> t_createdat = 10, t_updatedat = 20, t_deletedat = del, t_touchedat = None, t_name = name,
       t_owner = 1, t_access = (''JRWPA'', ''N''), t_seqid = 5, t_delid = 0,
       t_public = Some (JSONValue ''T''), t_tags = tags \<rparr>"

definition sample_topics :: "topic_row list" where
  "sample_topics = [sample_topic ''grpT'' (Some 300) [''travel''],
                    sample_topic ''grpS'' None [''travel'', ''food'']]"

definition sample_topictags :: "topictag_row list" where
  "sample_topictags =
     [\<lparr> tt_topic = ''grpT'', tt_tag = ''travel'' \<rparr>, \<lparr> tt_topic = ''grpS'', tt_tag = ''travel'' \<rparr>,
      \<lparr> tt_topic = ''grpS'', tt_tag = ''food'' \<rparr>]"





definition sample_request_next :: DelMessage where
  "sample_request_next =
     \<lparr> dm_Topic = ''grpT'', dm_DeletedFor = ''1'', dm_DelId = 2,
       dm_SeqIdRanges = [\<lparr> Low = 20, Hi = 0 \<rparr>] \<rparr>"

section \<open>Properties\<close>

subsection \<open>Auxiliary facts about lists\<close>


subsection \<open>Messages deleted for one user\<close>







subsection \<open>The deletion log: writing and reading back\<close>

lemma fst_insert_ranges:
  "fst (insert_ranges t u i rs (dl, n)) =
     dl @ map (\<lambda>r. \<lparr> d_topic = t, d_deletedfor = u, d_delid = i, d_low = Low r,
                      d_hi = (if Hi r = 0 then wrap64 (Low r + 1) else Hi r) \<rparr>) rs"
  by (induction rs arbitrary: dl n) (simp_all add: Let_def)

lemma scan_dellog_same_delid:
  "\<forall>d \<in> set rows. d_delid d = dm_DelId dmsg \<Longrightarrow>
   scan_dellog c rows (dmsg, dmsgs) =
     (dmsg\<lparr> dm_SeqIdRanges := dm_SeqIdRanges dmsg
               @ map (\<lambda>d. read_form \<lparr> Low = d_low d, Hi = d_hi d \<rparr>) rows \<rparr>, dmsgs)"
proof (induction rows arbitrary: dmsg)
  case Nil
  then show ?case by simp
next
  case (Cons row rows)
  then show ?case by (simp add: Let_def read_form_def)
qed

lemma read_form_written:
  "read_form \<lparr> Low = Low r, Hi = (if Hi r = 0 then wrap64 (Low r + 1) else Hi r) \<rparr> = read_form r"
  by (cases r) (simp add: read_form_def)

lemma read_form_marker: "read_form \<lparr> Low = low, Hi = 0 \<rparr> = \<lparr> Low = low, Hi = 0 \<rparr>"
  by (simp add: read_form_def)

lemma read_form_single: "read_form \<lparr> Low = low, Hi = wrap64 (low + 1) \<rparr> = \<lparr> Low = low, Hi = 0 \<rparr>"
  by (simp add: read_form_def)

lemma read_form_idem: "read_form (read_form r) = read_form r"
  by (simp add: read_form_def)

lemma messageDeleteList_for_user:
  "dm_DeletedFor td \<noteq> [] \<Longrightarrow>
   messageDeleteList c hard topic (Some td) (msgs, dl) =
     Inr (msgs, dl @ map (\<lambda>r. \<lparr> d_topic = topic, d_deletedfor = decodeUidString c (dm_DeletedFor td),
                                  d_delid = dm_DelId td, d_low = Low r,
                                  d_hi = (if Hi r = 0 then wrap64 (Low r + 1) else Hi r) \<rparr>)
                       (dm_SeqIdRanges td))"
  by (simp add: messageDeleteList_def Let_def fst_insert_ranges)

lemma MessageGetDeleted_one_event:
  assumes rows: "rows = map (\<lambda>r. \<lparr> d_topic = topic, d_deletedfor = u, d_delid = i, d_low = Low r,
                      d_hi = (if Hi r = 0 then wrap64 (Low r + 1) else Hi r) \<rparr>) rs"
    and u: "DecodeUid c forUser = u" and i: "0 < i" "i \<le> 2 ^ 31"
    and rs: "rs \<noteq> []" and len: "int (length rs) \<le> maxResults"
  shows "MessageGetDeleted c maxResults rows topic forUser (None :: 'v QueryOpt option) =
     [\<lparr> dm_Topic = topic,
         dm_DeletedFor = (if u > 0 then UidString c (EncodeUid c u) else []),
         dm_DelId = i, dm_SeqIdRanges = map read_form rs \<rparr>]"
proof -
  have f: "filter (\<lambda>d. d_topic d = topic \<and> 0 \<le> d_delid d \<and> d_delid d \<le> 2 ^ 31
                       \<and> (d_deletedfor d = 0 \<or> d_deletedfor d = u)) rows = rows"
    using i by (simp add: rows)
  have "map d_delid rows = replicate (length rs) i"
    by (simp add: rows map_replicate_const comp_def)
  then have "sorted (map d_delid rows)" by (simp add: sorted_replicate)
  then have s: "sort_key d_delid rows = rows" by (rule sort_key_id_if_sorted)
  have t: "take (nat maxResults) rows = rows" using len by (simp add: rows)
  have "select_dellog rows topic 0 (2 ^ 31) u maxResults = rows"
    unfolding select_dellog_def by (simp only: f s t)
  then have sel: "select_dellog rows topic 0 2147483648 u maxResults = rows" by simp
  obtain r rs' where rr: "rs = r # rs'" using rs by (cases rs) auto
  define row where "row = \<lparr> d_topic = topic, d_deletedfor = u, d_delid = i, d_low = Low r,
                      d_hi = (if Hi r = 0 then wrap64 (Low r + 1) else Hi r) \<rparr>"
  define rest where "rest = map (\<lambda>r. \<lparr> d_topic = topic, d_deletedfor = u, d_delid = i, d_low = Low r,
                      d_hi = (if Hi r = 0 then wrap64 (Low r + 1) else Hi r) \<rparr>) rs'"
  have rows': "rows = row # rest" by (simp add: rows rr row_def rest_def)
  have all: "\<forall>d \<in> set rest. d_delid d = i" by (auto simp: rest_def)
  have rf: "map (\<lambda>d. read_form \<lparr> Low = d_low d, Hi = d_hi d \<rparr>) rest = map read_form rs'"
    by (simp add: rest_def comp_def read_form_written)
  have rf0: "read_form \<lparr> Low = d_low row, Hi = d_hi row \<rparr> = read_form r"
    by (simp add: row_def read_form_written)
  let ?d0 = "\<lparr> dm_Topic = [], dm_DeletedFor = [], dm_DelId = 0, dm_SeqIdRanges = [] \<rparr>"
  let ?d1 = "\<lparr> dm_Topic = topic,
         dm_DeletedFor = (if u > 0 then UidString c (EncodeUid c u) else []),
         dm_DelId = i, dm_SeqIdRanges = [read_form r] \<rparr>"
  have step: "scan_dellog c (row # rest) (?d0, []) = scan_dellog c rest (?d1, [])"
    using i(1) by (cases r) (simp add: Let_def row_def read_form_def)
  have "scan_dellog c rest (?d1, []) =
      (?d1\<lparr> dm_SeqIdRanges := dm_SeqIdRanges ?d1 @ map read_form rs' \<rparr>, [])"
    using scan_dellog_same_delid [of rest ?d1 c "[]"] all rf by simp
  with step have "scan_dellog c rows (?d0, []) =
      (\<lparr> dm_Topic = topic,
         dm_DeletedFor = (if u > 0 then UidString c (EncodeUid c u) else []),
         dm_DelId = i, dm_SeqIdRanges = map read_form rs \<rparr>, [])"
    by (simp add: rows' rr)
  then show ?thesis using i(1) by (simp add: MessageGetDeleted_def u sel)
qed

lemma insert_ranges_append:
  "insert_ranges t u i (xs @ ys) st = insert_ranges t u i ys (insert_ranges t u i xs st)"
proof (induction xs arbitrary: st)
  case Nil
  then show ?case by simp
next
  case (Cons x xs)
  then show ?case by (cases st) (simp add: Let_def)
qed

lemma insert_ranges_single:
  "insert_ranges t u i [\<lparr> Low = low, Hi = 0 \<rparr>] st
     = insert_ranges t u i [\<lparr> Low = low, Hi = wrap64 (low + 1) \<rparr>] st"
  by (cases st) (simp add: Let_def)

lemma insert_ranges_marker:
  "insert_ranges t u i (xs @ [\<lparr> Low = low, Hi = 0 \<rparr>] @ ys) st
     = insert_ranges t u i (xs @ [\<lparr> Low = low, Hi = wrap64 (low + 1) \<rparr>] @ ys) st"
  by (simp only: insert_ranges_append insert_ranges_single)

text \<open>
  One deletion for a user. The insert loop of \<open>messageDeleteList\<close> leaves the same log
  and counter for a single-element range written as \<open>[low, 0)\<close> and as
  \<open>[low, low+1)\<close>, so a deletion for a user gives the same tables for both. Reading back
  one deletion for a user written to an empty log returns that event with each range in
  its read form, where both spellings of a single-element range are the marker
  \<open>{low, 0}\<close>; a range already in read form comes back unchanged.
\<close>

lemma dellog_single_range_roundtrip:
  assumes "dm_DeletedFor td \<noteq> []"
  shows "insert_ranges topic u i (xs @ [\<lparr> Low = low, Hi = 0 \<rparr>] @ ys) st
           = insert_ranges topic u i (xs @ [\<lparr> Low = low, Hi = wrap64 (low + 1) \<rparr>] @ ys) st
    \<and> MessageDeleteList c hard topic
          (Some (td\<lparr> dm_SeqIdRanges := xs @ [\<lparr> Low = low, Hi = 0 \<rparr>] @ ys \<rparr>)) tabs
        = MessageDeleteList c hard topic
          (Some (td\<lparr> dm_SeqIdRanges := xs @ [\<lparr> Low = low, Hi = wrap64 (low + 1) \<rparr>] @ ys \<rparr>)) tabs
    \<and> (dm_SeqIdRanges td \<noteq> [] \<and> int (length (dm_SeqIdRanges td)) \<le> maxResults
         \<and> 0 < dm_DelId td \<and> dm_DelId td \<le> 2 ^ 31
         \<and> DecodeUid c forUser = decodeUidString c (dm_DeletedFor td)
        \<longrightarrow> MessageGetDeleted c maxResults
              (snd (snd (MessageDeleteList c hard topic (Some td) (msgs, []))))
              topic forUser (None :: 'v QueryOpt option)
            = [\<lparr> dm_Topic = topic,
                 dm_DeletedFor = (if decodeUidString c (dm_DeletedFor td) > 0
                                  then UidString c (EncodeUid c (decodeUidString c (dm_DeletedFor td)))
                                  else []),
                 dm_DelId = dm_DelId td,
                 dm_SeqIdRanges = map read_form (dm_SeqIdRanges td) \<rparr>])
    \<and> read_form \<lparr> Low = low, Hi = 0 \<rparr> = \<lparr> Low = low, Hi = 0 \<rparr>
    \<and> read_form \<lparr> Low = low, Hi = wrap64 (low + 1) \<rparr> = \<lparr> Low = low, Hi = 0 \<rparr>
    \<and> read_form (read_form r) = read_form r"
proof (intro conjI impI)
  show "insert_ranges topic u i (xs @ [\<lparr> Low = low, Hi = 0 \<rparr>] @ ys) st
           = insert_ranges topic u i (xs @ [\<lparr> Low = low, Hi = wrap64 (low + 1) \<rparr>] @ ys) st"
    by (rule insert_ranges_marker)
next
  show "MessageDeleteList c hard topic
          (Some (td\<lparr> dm_SeqIdRanges := xs @ [\<lparr> Low = low, Hi = 0 \<rparr>] @ ys \<rparr>)) tabs
        = MessageDeleteList c hard topic
          (Some (td\<lparr> dm_SeqIdRanges := xs @ [\<lparr> Low = low, Hi = wrap64 (low + 1) \<rparr>] @ ys \<rparr>)) tabs"
    using assms by (cases tabs) (simp add: MessageDeleteList_def messageDeleteList_for_user)
next
  assume h: "dm_SeqIdRanges td \<noteq> [] \<and> int (length (dm_SeqIdRanges td)) \<le> maxResults
         \<and> 0 < dm_DelId td \<and> dm_DelId td \<le> 2 ^ 31
         \<and> DecodeUid c forUser = decodeUidString c (dm_DeletedFor td)"
  have w: "snd (snd (MessageDeleteList c hard topic (Some td) (msgs, []))) =
      map (\<lambda>r. \<lparr> d_topic = topic, d_deletedfor = decodeUidString c (dm_DeletedFor td),
                  d_delid = dm_DelId td, d_low = Low r,
                  d_hi = (if Hi r = 0 then wrap64 (Low r + 1) else Hi r) \<rparr>) (dm_SeqIdRanges td)"
    using assms by (simp add: MessageDeleteList_def messageDeleteList_for_user)
  from h show "MessageGetDeleted c maxResults
              (snd (snd (MessageDeleteList c hard topic (Some td) (msgs, []))))
              topic forUser (None :: 'v QueryOpt option)
            = [\<lparr> dm_Topic = topic,
                 dm_DeletedFor = (if decodeUidString c (dm_DeletedFor td) > 0
                                  then UidString c (EncodeUid c (decodeUidString c (dm_DeletedFor td)))
                                  else []),
                 dm_DelId = dm_DelId td,
                 dm_SeqIdRanges = map read_form (dm_SeqIdRanges td) \<rparr>]"
    by (intro MessageGetDeleted_one_event [OF w]) simp_all
qed (simp_all add: read_form_marker read_form_single read_form_idem)

lemma dellog_single_range_roundtrip_witness:
  "dm_DeletedFor sample_request \<noteq> []
   \<and> (dm_SeqIdRanges sample_request \<noteq> [] \<and> int (length (dm_SeqIdRanges sample_request)) \<le> 1024
        \<and> 0 < dm_DelId sample_request \<and> dm_DelId sample_request \<le> 2 ^ 31
        \<and> DecodeUid plain_codec 1 = decodeUidString plain_codec (dm_DeletedFor sample_request))
   \<and> MessageGetDeleted plain_codec 1024
        (snd (snd (MessageDeleteList plain_codec sample_hard ''grpT'' (Some sample_request)
                     (sample_messages, []))))
        ''grpT'' 1 (None :: int QueryOpt option)
      = [\<lparr> dm_Topic = ''grpT'', dm_DeletedFor = ''1'', dm_DelId = 1,
           dm_SeqIdRanges = [\<lparr> Low = 2, Hi = 4 \<rparr>, \<lparr> Low = 7, Hi = 0 \<rparr>, \<lparr> Low = 9, Hi = 0 \<rparr>] \<rparr>]"
proof -
  have p: "ParseInt ''1'' = 1" "FormatInt 1 = ''1''"
    by code_simp+
  have d: "decodeUidString plain_codec ''1'' = 1"
    by (simp add: decodeUidString_def plain_codec_def p)
  have h1: "dm_DeletedFor sample_request \<noteq> []" by (simp add: sample_request_def)
  have h2: "dm_SeqIdRanges sample_request \<noteq> [] \<and> int (length (dm_SeqIdRanges sample_request)) \<le> 1024
        \<and> 0 < dm_DelId sample_request \<and> dm_DelId sample_request \<le> 2 ^ 31
        \<and> DecodeUid plain_codec 1 = decodeUidString plain_codec (dm_DeletedFor sample_request)"
    using d by (simp add: sample_request_def plain_codec_def)
  have e: "UidString plain_codec (EncodeUid plain_codec 1) = ''1''"
    by (simp add: plain_codec_def p)
  have r: "map read_form (dm_SeqIdRanges sample_request)
      = [\<lparr> Low = 2, Hi = 4 \<rparr>, \<lparr> Low = 7, Hi = 0 \<rparr>, \<lparr> Low = 9, Hi = 0 \<rparr>]"
    by (simp add: sample_request_def read_form_def wrap64_def)
  from dellog_single_range_roundtrip
    [OF h1, where c = plain_codec and maxResults = 1024 and forUser = 1 and hard = sample_hard
       and topic = "''grpT''" and msgs = sample_messages, THEN conjunct2, THEN conjunct2,
     THEN conjunct1, rule_format, OF h2, where ?'v = int]
  have "MessageGetDeleted plain_codec 1024
        (snd (snd (MessageDeleteList plain_codec sample_hard ''grpT'' (Some sample_request)
                     (sample_messages, []))))
        ''grpT'' 1 (None :: int QueryOpt option)
      = [\<lparr> dm_Topic = ''grpT'',
           dm_DeletedFor = (if decodeUidString plain_codec (dm_DeletedFor sample_request) > 0
                            then UidString plain_codec
                                   (EncodeUid plain_codec
                                      (decodeUidString plain_codec (dm_DeletedFor sample_request)))
                            else []),
           dm_DelId = dm_DelId sample_request,
           dm_SeqIdRanges = map read_form (dm_SeqIdRanges sample_request) \<rparr>]" .
  then have "MessageGetDeleted plain_codec 1024
        (snd (snd (MessageDeleteList plain_codec sample_hard ''grpT'' (Some sample_request)
                     (sample_messages, []))))
        ''grpT'' 1 (None :: int QueryOpt option)
      = [\<lparr> dm_Topic = ''grpT'', dm_DeletedFor = ''1'', dm_DelId = 1,
           dm_SeqIdRanges = [\<lparr> Low = 2, Hi = 4 \<rparr>, \<lparr> Low = 7, Hi = 0 \<rparr>, \<lparr> Low = 9, Hi = 0 \<rparr>] \<rparr>]"
    using d e r by (simp add: sample_request_def)
  with h1 h2 show ?thesis by blast
qed

text \<open>
  Claim C2 says that for every sequence of deletion-range writes \<open>MessageGetDeleted\<close>
  hands back the ranges that were written, each in the marker form of the write path's
  normalisation. It does so for the first deletion only. The loop of
  \<open>MessageGetDeleted\<close> keeps one \<open>dmsg\<close> for all rows and, when the deletion id
  changes, assigns \<open>DelId\<close> and \<open>Topic\<close> but never empties \<open>dmsg.SeqIdRanges\<close>, so
  the ranges of every earlier deletion are handed back again as ranges of the later one.
  After the sample deletion 1 of the ranges \<open>[2,4)\<close>, \<open>[7,0)\<close>, \<open>[9,10)\<close> and the
  deletion 2 of the single range \<open>[20,0)\<close>, both for user 1 and both written without
  error, deletion 2 is read back with four ranges, and not with \<open>{20, 0}\<close> alone.
\<close>

theorem MessageGetDeleted_repeats_earlier_ranges:
  "fst (MessageDeleteList plain_codec sample_hard ''grpT'' (Some sample_request)
          (sample_messages, [])) = None
   \<and> fst (MessageDeleteList plain_codec sample_hard ''grpT'' (Some sample_request_next)
            (snd (MessageDeleteList plain_codec sample_hard ''grpT'' (Some sample_request)
                    (sample_messages, [])))) = None
   \<and> MessageGetDeleted plain_codec 1024
        (snd (snd (MessageDeleteList plain_codec sample_hard ''grpT'' (Some sample_request_next)
           (snd (MessageDeleteList plain_codec sample_hard ''grpT'' (Some sample_request)
                   (sample_messages, []))))))
        ''grpT'' 1 (None :: int QueryOpt option)
      = [\<lparr> dm_Topic = ''grpT'', dm_DeletedFor = ''1'', dm_DelId = 1,
           dm_SeqIdRanges = [\<lparr> Low = 2, Hi = 4 \<rparr>, \<lparr> Low = 7, Hi = 0 \<rparr>, \<lparr> Low = 9, Hi = 0 \<rparr>] \<rparr>,
         \<lparr> dm_Topic = ''grpT'', dm_DeletedFor = ''1'', dm_DelId = 2,
           dm_SeqIdRanges = [\<lparr> Low = 2, Hi = 4 \<rparr>, \<lparr> Low = 7, Hi = 0 \<rparr>, \<lparr> Low = 9, Hi = 0 \<rparr>,
                             \<lparr> Low = 20, Hi = 0 \<rparr>] \<rparr>]
   \<and> map read_form (dm_SeqIdRanges sample_request_next) = [\<lparr> Low = 20, Hi = 0 \<rparr>]"
  by code_simp

subsection \<open>Deleting an empty list of ranges\<close>

lemma MessageDeleteList_empty_for_user:
  "dm_DeletedFor td \<noteq> [] \<Longrightarrow>
   MessageDeleteList c hard topic (Some (td\<lparr> dm_SeqIdRanges := [] \<rparr>)) tabs = (None, tabs)"
  by (simp add: MessageDeleteList_def messageDeleteList_def)

text \<open>
  Claim C3 says that \<open>MessageDeleteList\<close> with an empty list of ranges is a no-op that
  returns without error for every \<open>DeletedFor\<close>, the empty string (delete for everyone)
  included. For a non-empty \<open>DeletedFor\<close> it is (lemma above). For \<open>DeletedFor == ""\<close>
  the code evaluates \<open>toDel.SeqIdRanges[0].Hi\<close> on the empty slice: the call panics with
  an index out of range, whatever the topic, the deletion id and the tables are.
\<close>

theorem MessageDeleteList_empty_for_everyone_panics:
  "MessageDeleteList c hard topic
     (Some (td\<lparr> dm_DeletedFor := [], dm_SeqIdRanges := [] \<rparr>)) tabs
   = (Some PanicIndexOutOfRange, tabs)"
  by (simp add: MessageDeleteList_def messageDeleteList_def)

subsection \<open>Upserting an unconfirmed credential\<close>

lemma synthetic_deactivate [simp]: "cr_synthetic (cred_deactivate now u m r) = cr_synthetic r"
  by (simp add: cred_deactivate_def)

lemma synthetic_undelete [simp]: "cr_synthetic (cred_undelete cred k r) = cr_synthetic r"
  by (simp add: cred_undelete_def)

lemma filter_synthetic_map:
  assumes "\<And>r. cr_synthetic (f r) = cr_synthetic r"
  shows "filter (\<lambda>r. cr_synthetic r = k) (map f tab) = map f (filter (\<lambda>r. cr_synthetic r = k) tab)"
  by (induction tab) (simp_all add: assms)

lemma one_row_per_key:
  assumes "distinct (map cr_synthetic tab)" "r \<in> set tab" "cr_synthetic r = k"
  shows "filter (\<lambda>r. cr_synthetic r = k) tab = [r]"
  using assms
proof (induction tab)
  case Nil
  then show ?case by simp
next
  case (Cons x xs)
  show ?case
  proof (cases "x = r")
    case True
    have "\<forall>y \<in> set xs. cr_synthetic y \<noteq> k"
      using Cons.prems True by (auto simp: image_iff)
    then have "filter (\<lambda>r. cr_synthetic r = k) xs = []" by (simp add: filter_empty_conv)
    with True Cons.prems show ?thesis by simp
  next
    case False
    with Cons.prems have rin: "r \<in> set xs" by simp
    then have "cr_synthetic x \<noteq> k" using Cons.prems by (auto simp: image_iff)
    moreover have "filter (\<lambda>r. cr_synthetic r = k) xs = [r]"
      using Cons.IH Cons.prems rin by simp
    ultimately show ?thesis by simp
  qed
qed

lemma CredUpsert_duplicate:
  assumes "\<not> cred_Done cred" "r \<in> set tab" "cr_synthetic r = cred_Method cred @ '':'' @ cred_Value cred"
  shows "CredUpsert c now cred tab = ((False, Some ErrDuplicate), tab)"
  using assms by (auto simp: CredUpsert_def Let_def list_ex_iff)

lemma CredUpsert_unconfirmed_table:
  assumes "\<not> cred_Done cred"
    and "\<not> list_ex (\<lambda>r. cr_synthetic r = cred_Method cred @ '':'' @ cred_Value cred) tab"
  shows "CredUpsert c now cred tab =
     (if list_ex (\<lambda>r. cr_synthetic r = cred_User cred @ '':'' @ cred_Method cred @ '':'' @ cred_Value cred) tab
      then ((False, None),
            map (cred_undelete cred (cred_User cred @ '':'' @ cred_Method cred @ '':'' @ cred_Value cred))
              (map (cred_deactivate now (decodeUidString c (cred_User cred)) (cred_Method cred)) tab))
      else ((True, None),
            map (cred_undelete cred (cred_User cred @ '':'' @ cred_Method cred @ '':'' @ cred_Value cred))
              (map (cred_deactivate now (decodeUidString c (cred_User cred)) (cred_Method cred)) tab)
            @ [cred_new_row cred (cred_User cred @ '':'' @ cred_Method cred @ '':'' @ cred_Value cred)
                 (decodeUidString c (cred_User cred))]))"
  using assms
  by (auto simp: CredUpsert_def Let_def list_ex_iff filter_empty_conv comp_def)


lemma CredUpsert_one_key_row:
  fixes c :: "'u codec" and now :: int
  assumes nd: "\<not> cred_Done cred"
    and nb: "\<not> list_ex (\<lambda>r. cr_synthetic r = cred_Method cred @ '':'' @ cred_Value cred) tab"
    and di: "distinct (map cr_synthetic tab)"
  defines "key \<equiv> cred_User cred @ '':'' @ cred_Method cred @ '':'' @ cred_Value cred"
  defines "T \<equiv> snd (CredUpsert c now cred tab)"
  shows "distinct (map cr_synthetic T)"
    and "\<exists>r \<in> set T. cr_synthetic r = key"
    and "\<not> list_ex (\<lambda>r. cr_synthetic r = cred_Method cred @ '':'' @ cred_Value cred) T"
proof -
  let ?f = "\<lambda>r. cred_undelete cred key (cred_deactivate now (decodeUidString c (cred_User cred)) (cred_Method cred) r)"
  have m: "map cr_synthetic (map ?f tab) = map cr_synthetic tab" by (simp add: comp_def)
  have bk: "cred_Method cred @ '':'' @ cred_Value cred \<noteq> key"
    by (simp add: key_def)
  show "distinct (map cr_synthetic T)"
  proof (cases "list_ex (\<lambda>r. cr_synthetic r = key) tab")
    case True
    then have "T = map ?f tab"
      using CredUpsert_unconfirmed_table [OF nd nb, of c now] by (simp add: T_def key_def)
    then have "map cr_synthetic T = map cr_synthetic tab" by (simp only: m)
    then show ?thesis using di by simp
  next
    case False
    then have "T = map ?f tab @ [cred_new_row cred key (decodeUidString c (cred_User cred))]"
      using CredUpsert_unconfirmed_table [OF nd nb, of c now] by (simp add: T_def key_def)
    moreover have "key \<notin> set (map cr_synthetic tab)" using False by (auto simp: list_ex_iff)
    ultimately have "map cr_synthetic T = map cr_synthetic tab @ [key]"
      "key \<notin> set (map cr_synthetic tab)"
      using m by (simp_all add: cred_new_row_def del: map_map)
    then show ?thesis using di by simp
  qed
  show "\<exists>r \<in> set T. cr_synthetic r = key"
  proof (cases "list_ex (\<lambda>r. cr_synthetic r = key) tab")
    case True
    then have "T = map ?f tab"
      using CredUpsert_unconfirmed_table [OF nd nb, of c now] by (simp add: T_def key_def)
    then show ?thesis using True by (auto simp: list_ex_iff)
  next
    case False
    then have "T = map ?f tab @ [cred_new_row cred key (decodeUidString c (cred_User cred))]"
      using CredUpsert_unconfirmed_table [OF nd nb, of c now] by (simp add: T_def key_def)
    then show ?thesis by (simp add: cred_new_row_def)
  qed
  show "\<not> list_ex (\<lambda>r. cr_synthetic r = cred_Method cred @ '':'' @ cred_Value cred) T"
  proof (cases "list_ex (\<lambda>r. cr_synthetic r = key) tab")
    case True
    then have "T = map ?f tab"
      using CredUpsert_unconfirmed_table [OF nd nb, of c now] by (simp add: T_def key_def)
    then show ?thesis using nb by (auto simp: list_ex_iff)
  next
    case False
    then have "T = map ?f tab @ [cred_new_row cred key (decodeUidString c (cred_User cred))]"
      using CredUpsert_unconfirmed_table [OF nd nb, of c now] by (simp add: T_def key_def)
    then show ?thesis using nb bk by (auto simp: list_ex_iff cred_new_row_def)
  qed
qed

lemma CredUpsert_revives:
  assumes nd: "\<not> cred_Done cred"
    and nb: "\<not> list_ex (\<lambda>r. cr_synthetic r = cred_Method cred @ '':'' @ cred_Value cred) T"
    and di: "distinct (map cr_synthetic T)"
    and ex: "r \<in> set T" "cr_synthetic r = cred_User cred @ '':'' @ cred_Method cred @ '':'' @ cred_Value cred"
  shows "fst (CredUpsert c now cred T) = (False, None)"
    and "length (snd (CredUpsert c now cred T)) = length T"
    and "\<exists>x. filter (\<lambda>r. cr_synthetic r = cred_User cred @ '':'' @ cred_Method cred @ '':'' @ cred_Value cred)
                (snd (CredUpsert c now cred T)) = [x]
            \<and> cr_deletedat x = None \<and> cr_resp x = cred_Resp cred
            \<and> cr_updatedat x = cred_UpdatedAt cred"
proof -
  let ?key = "cred_User cred @ '':'' @ cred_Method cred @ '':'' @ cred_Value cred"
  let ?f = "\<lambda>r. cred_undelete cred ?key (cred_deactivate now (decodeUidString c (cred_User cred)) (cred_Method cred) r)"
  have le: "list_ex (\<lambda>r. cr_synthetic r = ?key) T" using ex by (auto simp: list_ex_iff)
  have eq: "CredUpsert c now cred T = ((False, None), map ?f T)"
    using CredUpsert_unconfirmed_table [OF nd nb, of c now] le by simp
  show "fst (CredUpsert c now cred T) = (False, None)" by (simp add: eq)
  show "length (snd (CredUpsert c now cred T)) = length T" by (simp add: eq)
  have "filter (\<lambda>r. cr_synthetic r = ?key) (map ?f T) = map ?f (filter (\<lambda>r. cr_synthetic r = ?key) T)"
    by (rule filter_synthetic_map) simp
  also have "\<dots> = [?f r]" using one_row_per_key [OF di ex] by simp
  finally have "filter (\<lambda>r. cr_synthetic r = ?key) (snd (CredUpsert c now cred T)) = [?f r]"
    by (simp add: eq)
  moreover have "cr_deletedat (?f r) = None \<and> cr_resp (?f r) = cred_Resp cred
            \<and> cr_updatedat (?f r) = cred_UpdatedAt cred"
    using ex(2) by (simp add: cred_undelete_def)
  ultimately show "\<exists>x. filter (\<lambda>r. cr_synthetic r = ?key) (snd (CredUpsert c now cred T)) = [x]
            \<and> cr_deletedat x = None \<and> cr_resp x = cred_Resp cred
            \<and> cr_updatedat x = cred_UpdatedAt cred"
    by blast
qed

lemma CredUpsert_deactivates_others:
  assumes nd: "\<not> cred_Done cred"
    and nb: "\<not> list_ex (\<lambda>r. cr_synthetic r = cred_Method cred @ '':'' @ cred_Value cred) tab"
    and k: "k < length tab"
    and r: "cr_userid (tab ! k) = decodeUidString c (cred_User cred)"
      "cr_method (tab ! k) = cred_Method cred" "\<not> cr_done (tab ! k)"
      "cr_synthetic (tab ! k) \<noteq> cred_User cred @ '':'' @ cred_Method cred @ '':'' @ cred_Value cred"
  shows "snd (CredUpsert c now cred tab) ! k = (tab ! k)\<lparr> cr_deletedat := Some now \<rparr>"
  using k r CredUpsert_unconfirmed_table [OF nd nb, of c now]
  by (simp add: nth_append cred_undelete_def cred_deactivate_def)

text \<open>
  Claim C4. \<open>CredUpsert\<close> of an unconfirmed credential (\<open>Done = false\<close>). If a confirmed
  row exists under the bare key \<open>method:value\<close>, the call returns \<open>ErrDuplicate\<close> and
  the table is unchanged. If no row has the bare key, every other unconfirmed row of the
  same user and method is soft-deleted at \<open>now\<close>; and a second unconfirmed upsert of the
  same user, method and value reports an update, not an insert, leaves the number of rows
  as it was, and leaves exactly one row under the key \<open>user:method:value\<close>, which has no
  delete marker and carries the response and the timestamp of the second call. The
  schema's \<open>UNIQUE(synthetic)\<close> is the hypothesis \<open>distinct\<close>.
\<close>

theorem CredUpsert_unconfirmed:
  fixes c :: "'u codec" and now nowB :: int
  assumes "\<not> cred_Done cred"
  shows "(r \<in> set tab \<and> cr_done r \<and> cr_synthetic r = cred_Method cred @ '':'' @ cred_Value cred
           \<longrightarrow> CredUpsert c now cred tab = ((False, Some ErrDuplicate), tab))
    \<and> (\<not> list_ex (\<lambda>r. cr_synthetic r = cred_Method cred @ '':'' @ cred_Value cred) tab
         \<and> k < length tab
         \<and> cr_userid (tab ! k) = decodeUidString c (cred_User cred)
         \<and> cr_method (tab ! k) = cred_Method cred \<and> \<not> cr_done (tab ! k)
         \<and> cr_synthetic (tab ! k)
             \<noteq> cred_User cred @ '':'' @ cred_Method cred @ '':'' @ cred_Value cred
         \<longrightarrow> snd (CredUpsert c now cred tab) ! k = (tab ! k)\<lparr> cr_deletedat := Some now \<rparr>)
    \<and> (\<not> list_ex (\<lambda>r. cr_synthetic r = cred_Method cred @ '':'' @ cred_Value cred) tab
         \<and> distinct (map cr_synthetic tab)
         \<and> \<not> cred_Done credB \<and> cred_User credB = cred_User cred
         \<and> cred_Method credB = cred_Method cred \<and> cred_Value credB = cred_Value cred
         \<longrightarrow> fst (CredUpsert c nowB credB (snd (CredUpsert c now cred tab))) = (False, None)
           \<and> length (snd (CredUpsert c nowB credB (snd (CredUpsert c now cred tab))))
               = length (snd (CredUpsert c now cred tab))
           \<and> (\<exists>x. filter (\<lambda>r. cr_synthetic r
                               = cred_User cred @ '':'' @ cred_Method cred @ '':'' @ cred_Value cred)
                      (snd (CredUpsert c nowB credB (snd (CredUpsert c now cred tab)))) = [x]
                  \<and> cr_deletedat x = None \<and> cr_resp x = cred_Resp credB
                  \<and> cr_updatedat x = cred_UpdatedAt credB))"
proof (intro conjI impI)
  assume "r \<in> set tab \<and> cr_done r \<and> cr_synthetic r = cred_Method cred @ '':'' @ cred_Value cred"
  then show "CredUpsert c now cred tab = ((False, Some ErrDuplicate), tab)"
    using CredUpsert_duplicate [OF assms] by blast
next
  assume "\<not> list_ex (\<lambda>r. cr_synthetic r = cred_Method cred @ '':'' @ cred_Value cred) tab
         \<and> k < length tab
         \<and> cr_userid (tab ! k) = decodeUidString c (cred_User cred)
         \<and> cr_method (tab ! k) = cred_Method cred \<and> \<not> cr_done (tab ! k)
         \<and> cr_synthetic (tab ! k)
             \<noteq> cred_User cred @ '':'' @ cred_Method cred @ '':'' @ cred_Value cred"
  then show "snd (CredUpsert c now cred tab) ! k = (tab ! k)\<lparr> cr_deletedat := Some now \<rparr>"
    using CredUpsert_deactivates_others [OF assms] by blast
next
  assume h: "\<not> list_ex (\<lambda>r. cr_synthetic r = cred_Method cred @ '':'' @ cred_Value cred) tab
         \<and> distinct (map cr_synthetic tab)
         \<and> \<not> cred_Done credB \<and> cred_User credB = cred_User cred
         \<and> cred_Method credB = cred_Method cred \<and> cred_Value credB = cred_Value cred"
  let ?T = "snd (CredUpsert c now cred tab)"
  from h have nb: "\<not> list_ex (\<lambda>r. cr_synthetic r = cred_Method cred @ '':'' @ cred_Value cred) tab"
    and di: "distinct (map cr_synthetic tab)" by simp_all
  from CredUpsert_one_key_row [OF assms nb di, of c now]
  have dB: "distinct (map cr_synthetic ?T)"
    and ex: "\<exists>r \<in> set ?T. cr_synthetic r
               = cred_User cred @ '':'' @ cred_Method cred @ '':'' @ cred_Value cred"
    and nbB: "\<not> list_ex (\<lambda>r. cr_synthetic r = cred_Method cred @ '':'' @ cred_Value cred) ?T"
    by simp_all
  from ex obtain y where y: "y \<in> set ?T"
    "cr_synthetic y = cred_User credB @ '':'' @ cred_Method credB @ '':'' @ cred_Value credB"
    using h by auto
  have ndB: "\<not> cred_Done credB" using h by simp
  have nbB': "\<not> list_ex (\<lambda>r. cr_synthetic r = cred_Method credB @ '':'' @ cred_Value credB) ?T"
    using nbB h by simp
  from CredUpsert_revives [OF ndB nbB' dB y, of c nowB] h
  show "fst (CredUpsert c nowB credB ?T) = (False, None)"
    and "length (snd (CredUpsert c nowB credB ?T)) = length ?T"
    and "\<exists>x. filter (\<lambda>r. cr_synthetic r
                               = cred_User cred @ '':'' @ cred_Method cred @ '':'' @ cred_Value cred)
                      (snd (CredUpsert c nowB credB ?T)) = [x]
                  \<and> cr_deletedat x = None \<and> cr_resp x = cred_Resp credB
                  \<and> cr_updatedat x = cred_UpdatedAt credB"
    by simp_all
qed

theorem CredUpsert_unconfirmed_witness:
  "\<not> cred_Done sample_cred
   \<and> (sample_confirmed_row \<in> set [sample_confirmed_row] \<and> cr_done sample_confirmed_row
        \<and> cr_synthetic sample_confirmed_row = cred_Method sample_cred @ '':'' @ cred_Value sample_cred)
   \<and> CredUpsert plain_codec 500 sample_cred [sample_confirmed_row]
        = ((False, Some ErrDuplicate), [sample_confirmed_row])
   \<and> (\<not> list_ex (\<lambda>r. cr_synthetic r = cred_Method sample_cred @ '':'' @ cred_Value sample_cred)
            [sample_old_row]
        \<and> (0::nat) < length [sample_old_row]
        \<and> cr_userid ([sample_old_row] ! 0) = decodeUidString plain_codec (cred_User sample_cred)
        \<and> cr_method ([sample_old_row] ! 0) = cred_Method sample_cred
        \<and> \<not> cr_done ([sample_old_row] ! 0)
        \<and> cr_synthetic ([sample_old_row] ! 0)
            \<noteq> cred_User sample_cred @ '':'' @ cred_Method sample_cred @ '':'' @ cred_Value sample_cred)
   \<and> snd (CredUpsert plain_codec 500 sample_cred [sample_old_row]) ! 0
        = ([sample_old_row] ! 0)\<lparr> cr_deletedat := Some 500 \<rparr>
   \<and> (distinct (map cr_synthetic [sample_old_row])
        \<and> \<not> cred_Done (sample_cred\<lparr> cred_Resp := ''456'', cred_UpdatedAt := 600 \<rparr>))
   \<and> fst (CredUpsert plain_codec 600 (sample_cred\<lparr> cred_Resp := ''456'', cred_UpdatedAt := 600 \<rparr>)
             (snd (CredUpsert plain_codec 500 sample_cred [sample_old_row]))) = (False, None)
   \<and> length (snd (CredUpsert plain_codec 600
                     (sample_cred\<lparr> cred_Resp := ''456'', cred_UpdatedAt := 600 \<rparr>)
                     (snd (CredUpsert plain_codec 500 sample_cred [sample_old_row]))))
        = length (snd (CredUpsert plain_codec 500 sample_cred [sample_old_row]))"
proof -
  let ?credB = "sample_cred\<lparr> cred_Resp := ''456'', cred_UpdatedAt := 600 \<rparr>"
  have h0: "\<not> cred_Done sample_cred" by (simp add: sample_cred_def)
  have h1: "sample_confirmed_row \<in> set [sample_confirmed_row] \<and> cr_done sample_confirmed_row
        \<and> cr_synthetic sample_confirmed_row = cred_Method sample_cred @ '':'' @ cred_Value sample_cred"
    by (simp add: sample_cred_def sample_confirmed_row_def)
  have d: "decodeUidString plain_codec ''1'' = 1" by code_simp
  have h2: "\<not> list_ex (\<lambda>r. cr_synthetic r = cred_Method sample_cred @ '':'' @ cred_Value sample_cred)
            [sample_old_row]
        \<and> (0::nat) < length [sample_old_row]
        \<and> cr_userid ([sample_old_row] ! 0) = decodeUidString plain_codec (cred_User sample_cred)
        \<and> cr_method ([sample_old_row] ! 0) = cred_Method sample_cred
        \<and> \<not> cr_done ([sample_old_row] ! 0)
        \<and> cr_synthetic ([sample_old_row] ! 0)
            \<noteq> cred_User sample_cred @ '':'' @ cred_Method sample_cred @ '':'' @ cred_Value sample_cred"
    using d by (simp add: sample_cred_def sample_old_row_def)
  have h3: "\<not> list_ex (\<lambda>r. cr_synthetic r = cred_Method sample_cred @ '':'' @ cred_Value sample_cred)
            [sample_old_row]
        \<and> distinct (map cr_synthetic [sample_old_row])
        \<and> \<not> cred_Done ?credB \<and> cred_User ?credB = cred_User sample_cred
        \<and> cred_Method ?credB = cred_Method sample_cred \<and> cred_Value ?credB = cred_Value sample_cred"
    by (simp add: sample_cred_def sample_old_row_def)
  note t1 = CredUpsert_unconfirmed [OF h0, where c = plain_codec and now = 500
      and r = sample_confirmed_row and tab = "[sample_confirmed_row]", THEN conjunct1, rule_format, OF h1]
  note t2 = CredUpsert_unconfirmed [OF h0, where c = plain_codec and now = 500
      and tab = "[sample_old_row]" and k = 0, THEN conjunct2, THEN conjunct1, rule_format, OF h2]
  note t3 = CredUpsert_unconfirmed [OF h0, where c = plain_codec and now = 500 and nowB = 600
      and tab = "[sample_old_row]" and credB = ?credB, THEN conjunct2, THEN conjunct2,
      rule_format, OF h3]
  from h0 h1 h2 h3 t1 t2 t3 show ?thesis by blast
qed

subsection \<open>Deleting a credential\<close>

text \<open>
  The constraints of the UPDATE after the renumbering loop: the loop replaces the first
  \<open>$1\<close> by \<open>$2\<close>, then the first \<open>$2\<close> (the one just written) by \<open>$3\<close>, then the
  first \<open>$3\<close> by \<open>$4\<close>, while the arguments are \<open>now, uid, method, value\<close>.
\<close>

lemma credDel_update_constraints:
  "renumber 3 1 '' WHERE userid=$1 AND method=$2 AND value=$3''
     = '' WHERE userid=$4 AND method=$2 AND value=$3''"
  by code_simp

lemma Itoa_2_3: "Itoa 2 = ''2''" "Itoa 3 = ''3''"
  by code_simp+

lemma credDel_delete_conds:
  "parse_where '' WHERE userid=$1 AND method=$2 AND value=$3''
     = Some [(''userid'', Suc 0), (''method'', 2), (''value'', 3)]"
  by code_simp

lemma credDel_update_conds:
  "parse_where (renumber 3 1 '' WHERE userid=$1 AND method=$2 AND value=$3'')
     = Some [(''userid'', 4), (''method'', 2), (''value'', 3)]"
  by code_simp

lemma delete_conds_hold:
  "conds_hold [(''userid'', Suc 0), (''method'', 2), (''value'', 3)] [IntV u, TextV m, TextV v] r
     = Some (cr_userid r = u \<and> cr_method r = m \<and> cr_value r = v)"
  by (auto simp: cred_col_def)

lemma update_conds_hold:
  "conds_hold [(''userid'', 4), (''method'', 2), (''value'', 3)] [TimeV now, IntV u, TextV m, TextV v] r
     = Some False"
  by (simp add: cred_col_def)

text \<open>
  So for a given method and value \<open>credDel\<close> removes the targeted rows that are confirmed
  or were never retried, and leaves every other row exactly as it was: its UPDATE marks
  no row.
\<close>

lemma credDel_one_value:
  assumes "method \<noteq> []" "val \<noteq> []"
  shows "credDel c now uid method val tab
     = Inr (filter (\<lambda>r. \<not> (cr_userid r = DecodeUid c uid \<and> cr_method r = method \<and> cr_value r = val
                              \<and> (cr_done r \<or> cr_retries r = 0))) tab)"
proof -
  let ?cs = "'' WHERE userid=$1 AND method=$2 AND value=$3''"
  let ?args = "[IntV (DecodeUid c uid), TextV method, TextV val]"
  let ?tab1 = "filter (\<lambda>r. \<not> (cr_userid r = DecodeUid c uid \<and> cr_method r = method \<and> cr_value r = val
                              \<and> (cr_done r \<or> cr_retries r = 0))) tab"
  have d: "exec_delete ?cs ?args (\<lambda>r. cr_done r \<or> cr_retries r = 0) tab = Inr ?tab1"
    unfolding exec_delete_def credDel_delete_conds
    by (simp add: delete_conds_hold list_ex_iff del: conds_hold.simps)
  have u: "\<And>T. exec_set_deletedat (renumber 3 1 ?cs) (TimeV now # ?args) T = Inr T"
    unfolding exec_set_deletedat_def credDel_update_conds
    by (simp add: update_conds_hold list_ex_iff del: conds_hold.simps)
  show ?thesis using assms
    by (simp add: credDel_def Let_def Itoa_2_3 d u [unfolded One_nat_def])
qed

text \<open>
  Claim C5 says that \<open>CredDel\<close> of an unconfirmed credential with at least one recorded
  failure soft-deletes the row. The code does not: for user 1, method \<open>email\<close>, value
  \<open>a@b.c\<close> and a table holding exactly that credential, unconfirmed, with one retry and no
  delete marker, the DELETE leaves the row (it has a retry) and the UPDATE, whose
  constraints compare \<open>userid\<close> with the value, \<open>method\<close> with the user id and
  \<open>value\<close> with the method, changes nothing: the row stays active. (An engine that
  refuses to compare \<open>userid\<close> with \<open>a@b.c\<close> fails the UPDATE instead, and the
  transaction is rolled back: the row stays active then, too.)
\<close>

theorem CredDel_retried_not_soft_deleted:
  "snd (CredDel plain_codec 500 1 ''email'' ''a@b.c'' [sample_cred_row]) = [sample_cred_row]
   \<and> cr_userid sample_cred_row = DecodeUid plain_codec 1
   \<and> cr_method sample_cred_row = ''email'' \<and> cr_value sample_cred_row = ''a@b.c''
   \<and> \<not> cr_done sample_cred_row \<and> cr_retries sample_cred_row = 1
   \<and> cr_deletedat sample_cred_row = None"
  by code_simp

subsection \<open>Public values of a P2P topic\<close>

lemma users_keep_all [simp]: "users_keep c True None sub"
  by (simp add: users_keep_def)

lemma UsersForTopic_p2p:
  assumes "cat topic = TopicCatP2P"
    and "users_for_topic_rows c maxResults subs users TopicCatP2P topic keepDeleted opts \<noteq> []"
  shows "UsersForTopic c cat maxResults subs users topic keepDeleted opts
     = filter (users_keep c keepDeleted
                 (case opts of None \<Rightarrow> None
                  | Some opt \<Rightarrow> if \<not> IsZero c (opt_User opt) then Some (opt_User opt) else None))
         (swap_public (map (scan_user_sub c)
            (users_for_topic_rows c maxResults subs users TopicCatP2P topic keepDeleted opts)))"
proof (cases "\<not> keepDeleted \<or> (case opts of None \<Rightarrow> None
                  | Some opt \<Rightarrow> if \<not> IsZero c (opt_User opt) then Some (opt_User opt) else None) \<noteq> None")
  case True
  then show ?thesis using assms by (simp add: UsersForTopic_def Let_def)
next
  case False
  then have k: "keepDeleted = True" and o: "(case opts of None \<Rightarrow> None
                  | Some opt \<Rightarrow> if \<not> IsZero c (opt_User opt) then Some (opt_User opt) else None) = None"
    by simp_all
  show ?thesis using assms unfolding UsersForTopic_def Let_def o k by simp
qed

text \<open>
  Claim C6. \<open>UsersForTopic\<close> on a P2P topic. When the statement returns exactly two rows,
  the result is made of the first subscription carrying the public value of the second
  row's user and the second carrying that of the first row's user; when it returns exactly
  one row, of that subscription with public value nil. In both cases the loop that
  removes deleted and unneeded subscriptions then decides which of them are returned.
\<close>

theorem UsersForTopic_p2p_swap:
  assumes "cat topic = TopicCatP2P"
  shows "(users_for_topic_rows c maxResults subs users TopicCatP2P topic keepDeleted opts = [ra, rb]
          \<longrightarrow> UsersForTopic c cat maxResults subs users topic keepDeleted opts
              = filter (users_keep c keepDeleted
                          (case opts of None \<Rightarrow> None
                           | Some opt \<Rightarrow> if \<not> IsZero c (opt_User opt)
                                          then Some (opt_User opt) else None))
                  [(scan_user_sub c ra)\<lparr> sub_public := fromJSON (u_public (snd rb)) \<rparr>,
                   (scan_user_sub c rb)\<lparr> sub_public := fromJSON (u_public (snd ra)) \<rparr>])
    \<and> (users_for_topic_rows c maxResults subs users TopicCatP2P topic keepDeleted opts = [ra]
          \<longrightarrow> UsersForTopic c cat maxResults subs users topic keepDeleted opts
              = filter (users_keep c keepDeleted
                          (case opts of None \<Rightarrow> None
                           | Some opt \<Rightarrow> if \<not> IsZero c (opt_User opt)
                                          then Some (opt_User opt) else None))
                  [(scan_user_sub c ra)\<lparr> sub_public := None \<rparr>])"
proof (intro conjI impI)
  assume r: "users_for_topic_rows c maxResults subs users TopicCatP2P topic keepDeleted opts = [ra, rb]"
  have "swap_public (map (scan_user_sub c) [ra, rb])
      = [(scan_user_sub c ra)\<lparr> sub_public := fromJSON (u_public (snd rb)) \<rparr>,
         (scan_user_sub c rb)\<lparr> sub_public := fromJSON (u_public (snd ra)) \<rparr>]"
    by (simp add: swap_public_def scan_user_sub_def)
  with UsersForTopic_p2p [where cat = cat and topic = topic, OF assms, of c maxResults subs users keepDeleted opts] r show "UsersForTopic c cat maxResults subs users topic keepDeleted opts
              = filter (users_keep c keepDeleted
                          (case opts of None \<Rightarrow> None
                           | Some opt \<Rightarrow> if \<not> IsZero c (opt_User opt)
                                          then Some (opt_User opt) else None))
                  [(scan_user_sub c ra)\<lparr> sub_public := fromJSON (u_public (snd rb)) \<rparr>,
                   (scan_user_sub c rb)\<lparr> sub_public := fromJSON (u_public (snd ra)) \<rparr>]"
    by simp
next
  assume r: "users_for_topic_rows c maxResults subs users TopicCatP2P topic keepDeleted opts = [ra]"
  have "swap_public (map (scan_user_sub c) [ra]) = [(scan_user_sub c ra)\<lparr> sub_public := None \<rparr>]"
    by (simp add: swap_public_def)
  with UsersForTopic_p2p [where cat = cat and topic = topic, OF assms, of c maxResults subs users keepDeleted opts] r show "UsersForTopic c cat maxResults subs users topic keepDeleted opts
              = filter (users_keep c keepDeleted
                          (case opts of None \<Rightarrow> None
                           | Some opt \<Rightarrow> if \<not> IsZero c (opt_User opt)
                                          then Some (opt_User opt) else None))
                  [(scan_user_sub c ra)\<lparr> sub_public := None \<rparr>]"
    by simp
qed

theorem UsersForTopic_p2p_swap_witness:
  "sample_cat ''p2pAB'' = TopicCatP2P
   \<and> users_for_topic_rows plain_codec 1024 sample_subs sample_users TopicCatP2P ''p2pAB'' False
        (None :: int QueryOpt option)
      = [(sample_sub 1 ''p2pAB'' None, sample_user 1 ''alice'' [''email:a@b.c'', ''tel:1'']),
         (sample_sub 2 ''p2pAB'' None, sample_user 2 ''bob'' [''email:b@b.c'', ''tel:1''])]
   \<and> map sub_public (UsersForTopic plain_codec sample_cat 1024 sample_subs sample_users ''p2pAB''
                       False (None :: int QueryOpt option)) = [Some ''bob'', Some ''alice'']
   \<and> users_for_topic_rows plain_codec 1024 sample_subs (tl sample_users) TopicCatP2P ''p2pAB'' False
        (None :: int QueryOpt option)
      = [(sample_sub 2 ''p2pAB'' None, sample_user 2 ''bob'' [''email:b@b.c'', ''tel:1''])]
   \<and> map sub_public (UsersForTopic plain_codec sample_cat 1024 sample_subs (tl sample_users)
                       ''p2pAB'' False (None :: int QueryOpt option)) = [None]"
proof -
  have p: "sample_cat ''p2pAB'' = TopicCatP2P" by code_simp
  have r2: "users_for_topic_rows plain_codec 1024 sample_subs sample_users TopicCatP2P ''p2pAB'' False
            (None :: int QueryOpt option)
          = [(sample_sub 1 ''p2pAB'' None, sample_user 1 ''alice'' [''email:a@b.c'', ''tel:1'']),
             (sample_sub 2 ''p2pAB'' None, sample_user 2 ''bob'' [''email:b@b.c'', ''tel:1''])]"
    by code_simp
  have r1: "users_for_topic_rows plain_codec 1024 sample_subs (tl sample_users) TopicCatP2P ''p2pAB''
            False (None :: int QueryOpt option)
          = [(sample_sub 2 ''p2pAB'' None, sample_user 2 ''bob'' [''email:b@b.c'', ''tel:1''])]"
    by code_simp
  note t2 = UsersForTopic_p2p_swap [where cat = sample_cat and topic = "''p2pAB''", OF p,
      THEN conjunct1, rule_format, OF r2]
  note t1 = UsersForTopic_p2p_swap [where cat = sample_cat and topic = "''p2pAB''", OF p,
      THEN conjunct2, rule_format, OF r1]
  have a: "map sub_public (UsersForTopic plain_codec sample_cat 1024 sample_subs sample_users ''p2pAB''
                       False (None :: int QueryOpt option)) = [Some ''bob'', Some ''alice'']"
    unfolding t2 by (simp add: users_keep_def scan_user_sub_def scan_subscription_def
        sample_sub_def sample_user_def fromJSON_def)
  have b: "map sub_public (UsersForTopic plain_codec sample_cat 1024 sample_subs (tl sample_users)
                       ''p2pAB'' False (None :: int QueryOpt option)) = [None]"
    unfolding t1 by (simp add: users_keep_def scan_user_sub_def scan_subscription_def
        sample_sub_def sample_user_def fromJSON_def)
  from p r2 r1 a b show ?thesis by blast
qed

subsection \<open>Soft-deleted rows and the reads\<close>










lemma sub_Topic_merge_times [simp]: "sub_Topic (merge_times ty sub h2) = sub_Topic sub"
  by (simp add: merge_times_def Let_def)

lemma sub_Topic_scan [simp]: "sub_Topic (scan_subscription r) = s_topic r"
  by (simp add: scan_subscription_def)








subsection \<open>Decimal strings and the identifier codec\<close>

lemma decimal_snoc: "decimal acc (xs @ [c]) = 10 * decimal acc xs + (of_char c - 48)"
  by (induction xs arbitrary: acc) auto

lemma of_char_digit_nat: "d < 10 \<Longrightarrow> (of_char (digit_char d) :: nat) = 48 + d"
  by (simp add: digit_char_def)

lemma of_char_digit: "d < 10 \<Longrightarrow> (of_char (digit_char d) :: int) = 48 + int d"
proof -
  assume d: "d < 10"
  have "(of_char (digit_char d) :: int) = int (of_char (digit_char d))"
    by (simp only: of_nat_of_char)
  then show ?thesis using of_char_digit_nat [OF d] by simp
qed

lemma is_digit_digit_char: "d < 10 \<Longrightarrow> is_digit (digit_char d)"
  by (simp add: is_digit_def of_char_digit_nat)

lemma decimal_Itoa: "decimal 0 (Itoa n) = int n"
proof (induction n rule: Itoa.induct)
  case (1 n)
  show ?case
  proof (cases "n < 10")
    case True
    then show ?thesis by (simp add: Itoa.simps [of n] of_char_digit)
  next
    case False
    then have "decimal 0 (Itoa n) = 10 * decimal 0 (Itoa (n div 10)) + (of_char (digit_char (n mod 10)) - 48)"
      by (simp add: Itoa.simps [of n] decimal_snoc)
    also have "\<dots> = 10 * int (n div 10) + int (n mod 10)"
      using 1 False by (simp add: of_char_digit)
    also have "\<dots> = int n" by (simp add: zdiv_int zmod_int)
    finally show ?thesis .
  qed
qed

lemma digits_Itoa: "list_all is_digit (Itoa n)"
proof (induction n rule: Itoa.induct)
  case (1 n)
  show ?case
  proof (cases "n < 10")
    case True
    then show ?thesis by (simp add: Itoa.simps [of n] is_digit_digit_char)
  next
    case False
    with 1 show ?thesis by (simp add: Itoa.simps [of n] is_digit_digit_char)
  qed
qed

lemma Itoa_not_Nil: "Itoa n \<noteq> []"
  by (simp add: Itoa.simps [of n])

lemma is_digit_not_sign: "is_digit c \<Longrightarrow> c \<noteq> CHR ''-'' \<and> c \<noteq> CHR ''+''"
  by (auto simp: is_digit_def)

lemma hd_Itoa: "hd (Itoa n) \<noteq> CHR ''-'' \<and> hd (Itoa n) \<noteq> CHR ''+''"
proof -
  have "is_digit (hd (Itoa n))"
    using digits_Itoa [of n] Itoa_not_Nil [of n] by (cases "Itoa n") simp_all
  then show ?thesis by (rule is_digit_not_sign)
qed

lemma ParseInt_FormatInt:
  assumes "- (2 ^ 63) \<le> n" "n < 2 ^ 63"
  shows "ParseInt (FormatInt n) = n"
proof (cases "n < 0")
  case True
  have "ParseInt (CHR ''-'' # Itoa (nat (- n))) = - min (decimal 0 (Itoa (nat (- n)))) (2 ^ 63)"
    using digits_Itoa [of "nat (- n)"] Itoa_not_Nil [of "nat (- n)"]
    by (simp add: ParseInt_def)
  also have "\<dots> = n" using True assms by (simp add: decimal_Itoa)
  finally show ?thesis using True by (simp add: FormatInt_def)
next
  case False
  have "ParseInt (Itoa (nat n)) = min (decimal 0 (Itoa (nat n))) (2 ^ 63 - 1)"
    using digits_Itoa [of "nat n"] Itoa_not_Nil [of "nat n"] hd_Itoa [of "nat n"]
    by (simp add: ParseInt_def)
  also have "\<dots> = n" using False assms by (simp add: decimal_Itoa)
  finally show ?thesis using False by (simp add: FormatInt_def)
qed

lemma decimal_nonneg: "0 \<le> acc \<Longrightarrow> list_all is_digit xs \<Longrightarrow> 0 \<le> decimal acc xs"
proof (induction xs arbitrary: acc)
  case Nil
  then show ?case by simp
next
  case (Cons c cs)
  have "(48::int) \<le> of_char c"
  proof -
    have "(48::nat) \<le> of_char c" using Cons.prems by (simp add: is_digit_def)
    then have "int 48 \<le> int (of_char c)" by (simp only: of_nat_le_iff)
    then show ?thesis by (simp only: of_nat_of_char)
  qed
  then have "0 \<le> 10 * acc + (of_char c - 48)" using Cons.prems by simp
  then show ?case using Cons by simp
qed

lemma ParseInt_upper: "ParseInt s < 2 ^ 63"
proof -
  define body where "body = (if s \<noteq> [] \<and> (hd s = CHR ''-'' \<or> hd s = CHR ''+'') then tl s else s)"
  show ?thesis
  proof (cases "body = [] \<or> \<not> list_all is_digit body")
    case True
    then show ?thesis by (simp add: ParseInt_def body_def Let_def)
  next
    case False
    then have "0 \<le> decimal 0 body" by (simp add: decimal_nonneg)
    then show ?thesis using False
      by (auto simp: ParseInt_def body_def [symmetric] Let_def min_def)
  qed
qed

lemma ParseInt_not_numeric: "\<not> is_numeric s \<Longrightarrow> ParseInt s = 0"
  by (auto simp: is_numeric_def ParseInt_def Let_def)

lemma plain_codec_contract: "codec_contract plain_codec"
proof -
  have a: "\<And>n. valid_id n \<Longrightarrow> decodeUidString plain_codec (opaque plain_codec n) = n"
  proof -
    fix n :: int
    assume v: "valid_id n"
    then have "ParseInt (FormatInt n) = n" by (intro ParseInt_FormatInt) (simp_all add: valid_id_def)
    then show "decodeUidString plain_codec (opaque plain_codec n) = n"
      using v by (simp add: decodeUidString_def opaque_def plain_codec_def valid_id_def)
  qed
  have b: "\<And>s. (\<forall>n. valid_id n \<longrightarrow> s \<noteq> opaque plain_codec n) \<Longrightarrow> decodeUidString plain_codec s = 0"
  proof -
    fix s
    assume m: "\<forall>n. valid_id n \<longrightarrow> s \<noteq> opaque plain_codec n"
    show "decodeUidString plain_codec s = 0"
    proof (cases "FormatInt (ParseInt s) = s \<and> 1 \<le> ParseInt s")
      case True
      then have "valid_id (ParseInt s)" using ParseInt_upper [of s] by (simp add: valid_id_def)
      with m have "s \<noteq> opaque plain_codec (ParseInt s)" by blast
      with True show ?thesis by (simp add: opaque_def plain_codec_def)
    next
      case False
      then show ?thesis by (auto simp: decodeUidString_def plain_codec_def)
    qed
  qed
  show ?thesis unfolding codec_contract_def using a b by blast
qed

text \<open>
  Claim C9. Under the contract of the codec: for every valid numeric id \<open>n\<close>, decoding
  the opaque form of \<open>n\<close> gives \<open>n\<close>, also when the id passes through the adapter's
  \<open>encodeUidString\<close> as the decimal string a BIGINT column is scanned into, and
  encoding what the opaque form of a valid id decodes to gives that opaque form; decoding
  a malformed string with \<open>decodeUidString\<close> gives 0; and \<open>encodeUidString\<close> of a
  string that is not a number encodes the value 0. None of these can fail: the functions
  return plain values.
\<close>

theorem uid_codec_roundtrip:
  assumes "codec_contract c"
  shows "(valid_id n \<longrightarrow> decodeUidString c (opaque c n) = n
            \<and> decodeUidString c (UidString c (encodeUidString c (FormatInt n))) = n)
    \<and> (valid_id n \<and> t = opaque c n \<longrightarrow> opaque c (decodeUidString c t) = t)
    \<and> ((\<forall>k. valid_id k \<longrightarrow> s \<noteq> opaque c k) \<longrightarrow> decodeUidString c s = 0)
    \<and> (\<not> is_numeric str \<longrightarrow> encodeUidString c str = EncodeUid c 0)"
proof (intro conjI impI)
  assume v: "valid_id n"
  then show a: "decodeUidString c (opaque c n) = n"
    using assms by (simp add: codec_contract_def)
  have "ParseInt (FormatInt n) = n"
    using v by (intro ParseInt_FormatInt) (simp_all add: valid_id_def)
  then show "decodeUidString c (UidString c (encodeUidString c (FormatInt n))) = n"
    using a by (simp add: encodeUidString_def opaque_def)
next
  assume "valid_id n \<and> t = opaque c n"
  then show "opaque c (decodeUidString c t) = t"
    using assms by (simp add: codec_contract_def)
next
  assume "\<forall>k. valid_id k \<longrightarrow> s \<noteq> opaque c k"
  then show "decodeUidString c s = 0" using assms by (simp add: codec_contract_def)
next
  assume "\<not> is_numeric str"
  then show "encodeUidString c str = EncodeUid c 0"
    by (simp add: encodeUidString_def ParseInt_not_numeric)
qed

theorem uid_codec_roundtrip_witness:
  "codec_contract plain_codec \<and> valid_id 5
   \<and> decodeUidString plain_codec (UidString plain_codec (encodeUidString plain_codec (FormatInt 5))) = 5
   \<and> \<not> (\<exists>k. valid_id k \<and> ''garbage'' = opaque plain_codec k)
   \<and> decodeUidString plain_codec ''garbage'' = 0
   \<and> \<not> is_numeric ''12a''
   \<and> encodeUidString plain_codec ''12a'' = EncodeUid plain_codec 0"
proof -
  have v: "valid_id 5" by (simp add: valid_id_def)
  have g: "\<forall>k. valid_id k \<longrightarrow> ''garbage'' \<noteq> opaque plain_codec k"
  proof (intro allI impI)
    fix k :: int
    assume "valid_id k"
    then have "opaque plain_codec k = Itoa (nat k)"
      by (simp add: opaque_def plain_codec_def FormatInt_def valid_id_def)
    moreover have "\<not> list_all is_digit ''garbage''" by (simp add: is_digit_def)
    ultimately show "''garbage'' \<noteq> opaque plain_codec k"
      using digits_Itoa [of "nat k"] by metis
  qed
  have n: "\<not> is_numeric ''12a''" by (simp add: is_numeric_def is_digit_def)
  note t = uid_codec_roundtrip [OF plain_codec_contract, where n = 5 and s = "''garbage''"
      and str = "''12a''"]
  from g have g': "\<not> (\<exists>k. valid_id k \<and> ''garbage'' = opaque plain_codec k)" by blast
  from t v g g' n plain_codec_contract show ?thesis by blast
qed

subsection \<open>Search by tags\<close>

lemma tag_groups_subset:
  "g \<in> set (tag_groups entities joined req opt limit) \<Longrightarrow>
     fst g \<in> set entities
     \<and> snd g = length (filter (\<lambda>t. t \<in> set (req @ opt)) (joined (fst g)))
     \<and> (req = [] \<or> length (filter (\<lambda>t. t \<in> set req)
                               (filter (\<lambda>t. t \<in> set (req @ opt)) (joined (fst g))))
                      \<ge> length req)"
  unfolding tag_groups_def by (auto dest!: in_set_takeD)

lemma required_tags_all_matched:
  assumes d: "distinct js"
    and n: "length (filter (\<lambda>t. t \<in> set req) (filter (\<lambda>t. t \<in> set (req @ opt)) js)) \<ge> length req"
  shows "set req \<subseteq> set js"
proof -
  have "filter (\<lambda>t. t \<in> set req) (filter (\<lambda>t. t \<in> set (req @ opt)) js) = filter (\<lambda>t. t \<in> set req) js"
    by (induction js) auto
  then have "length req \<le> length (filter (\<lambda>t. t \<in> set req) js)" using n by simp
  also have "\<dots> = card ({t. t \<in> set req} \<inter> set js)" using d by (rule distinct_length_filter)
  finally have a: "length req \<le> card (set req \<inter> set js)" by simp
  have "card (set req) \<le> length req" by (rule card_length)
  with a have "card (set req) \<le> card (set req \<inter> set js)" by simp
  moreover have "set req \<inter> set js \<subseteq> set req" by blast
  ultimately have "set req \<inter> set js = set req"
    by (intro card_seteq) simp_all
  then show ?thesis by blast
qed

lemma matches_is_overlap:
  assumes "distinct js"
  shows "length (filter (\<lambda>t. t \<in> set ts) js) = card (set js \<inter> set ts)"
proof -
  have "length (filter (\<lambda>t. t \<in> set ts) js) = card ({t. t \<in> set ts} \<inter> set js)"
    using assms by (rule distinct_length_filter)
  also have "{t. t \<in> set ts} \<inter> set js = set js \<inter> set ts" by blast
  finally show ?thesis .
qed

lemma tag_groups_ranked:
  "sorted_wrt (\<lambda>a b. snd a \<ge> snd b) (tag_groups entities joined req opt limit)"
proof -
  let ?xs = "filter (\<lambda>g. req = []
                        \<or> length (filter (\<lambda>t. t \<in> set req)
                                    (filter (\<lambda>t. t \<in> set (req @ opt)) (joined (fst g))))
                            \<ge> length req)
             (filter (\<lambda>g. snd g > 0)
                (map (\<lambda>e. (e, length (filter (\<lambda>t. t \<in> set (req @ opt)) (joined e))))
                   entities))"
  have "sorted (map (\<lambda>g. - int (snd g)) (sort_key (\<lambda>g. - int (snd g)) ?xs))"
    by (rule sorted_sort_key)
  then have "sorted_wrt (\<lambda>a b. - int (snd a) \<le> - int (snd b)) (sort_key (\<lambda>g. - int (snd g)) ?xs)"
    by (simp add: sorted_map)
  then have "sorted_wrt (\<lambda>a b. snd a \<ge> snd b) (sort_key (\<lambda>g. - int (snd g)) ?xs)"
    by (rule sorted_wrt_mono_rel [rotated]) simp
  then have "sorted_wrt (\<lambda>a b. snd a \<ge> snd b) (take (nat limit) (sort_key (\<lambda>g. - int (snd g)) ?xs))"
    by (rule sorted_wrt_take)
  then show ?thesis by (simp add: tag_groups_def)
qed

lemma distinct_user_index_tags:
  "distinct (map (\<lambda>t. (ut_userid t, ut_tag t)) tags) \<Longrightarrow> distinct (user_index_tags tags u)"
  unfolding user_index_tags_def
proof (induction tags)
  case Nil
  then show ?case by simp
next
  case (Cons a tags)
  then show ?case by (auto simp: image_iff)
qed

lemma distinct_topic_index_tags:
  "distinct (map (\<lambda>r. (tt_topic r, tt_tag r)) tags) \<Longrightarrow> distinct (topic_index_tags tags t)"
  unfolding topic_index_tags_def
proof (induction tags)
  case Nil
  then show ?case by simp
next
  case (Cons a tags)
  then show ?case by (auto simp: image_iff)
qed

lemma tag_groups_sound:
  assumes "\<And>e. distinct (joined e)"
    and "g \<in> set (tag_groups entities joined req opt limit)"
  shows "fst g \<in> set entities \<and> set req \<subseteq> set (joined (fst g))
       \<and> snd g = card (set (joined (fst g)) \<inter> set (req @ opt))"
proof -
  note s = tag_groups_subset [OF assms(2)]
  have "set req \<subseteq> set (joined (fst g))"
  proof (cases "req = []")
    case True
    then show ?thesis by simp
  next
    case False
    with s show ?thesis using required_tags_all_matched [OF assms(1)] by blast
  qed
  moreover have "snd g = card (set (joined (fst g)) \<inter> set (req @ opt))"
    using s matches_is_overlap [where js = "joined (fst g)" and ts = "req @ opt"] assms(1)
    by simp
  ultimately show ?thesis using s by blast
qed

text \<open>
  Claim C7. With the index tables unique in (owner, tag), as the schema has them, the
  rows behind the result of \<open>FindUsers\<close> and of \<open>FindTopics\<close> are entities whose index
  tags include every required tag, each with its number of index tags among the required
  and optional ones, and they come in descending order of that number; the subscriptions
  returned are built from these rows in that order.
\<close>

theorem tag_search_required_and_ranked:
  assumes "distinct (map (\<lambda>t. (ut_userid t, ut_tag t)) utags)"
    and "distinct (map (\<lambda>r. (tt_topic r, tt_tag r)) ttags)"
  shows "(\<exists>rows. FindUsers c maxResults users utags uid req opt
                   = map (\<lambda>g. found_user c (req @ opt) (fst g)) rows
            \<and> (\<forall>g \<in> set rows. fst g \<in> set users
                  \<and> set req \<subseteq> set (user_index_tags utags (fst g))
                  \<and> snd g = card (set (user_index_tags utags (fst g)) \<inter> set (req @ opt)))
            \<and> sorted_wrt (\<lambda>a b. snd a \<ge> snd b) rows)
    \<and> (\<exists>rows. FindTopics maxResults topics ttags req opt
                   = map (\<lambda>g. found_topic (req @ opt) (fst g)) rows
            \<and> (\<forall>g \<in> set rows. fst g \<in> set topics
                  \<and> set req \<subseteq> set (topic_index_tags ttags (fst g))
                  \<and> snd g = card (set (topic_index_tags ttags (fst g)) \<inter> set (req @ opt)))
            \<and> sorted_wrt (\<lambda>a b. snd a \<ge> snd b) rows)"
proof (intro conjI)
  let ?rows = "filter (\<lambda>g. u_id (fst g) \<noteq> DecodeUid c uid)
                 (find_users_rows maxResults users utags req opt)"
  have 1: "FindUsers c maxResults users utags uid req opt
             = map (\<lambda>g. found_user c (req @ opt) (fst g)) ?rows"
    by (simp add: FindUsers_def)
  have 2: "\<forall>g \<in> set ?rows. fst g \<in> set users
                  \<and> set req \<subseteq> set (user_index_tags utags (fst g))
                  \<and> snd g = card (set (user_index_tags utags (fst g)) \<inter> set (req @ opt))"
  proof
    fix g assume "g \<in> set ?rows"
    then have "g \<in> set (tag_groups (filter (\<lambda>u. u_deletedat u = None) users)
                          (user_index_tags utags) req opt maxResults)"
      by (simp add: find_users_rows_def)
    from tag_groups_sound [OF distinct_user_index_tags [OF assms(1)] this]
    show "fst g \<in> set users
                  \<and> set req \<subseteq> set (user_index_tags utags (fst g))
                  \<and> snd g = card (set (user_index_tags utags (fst g)) \<inter> set (req @ opt))"
      by simp
  qed
  have 3: "sorted_wrt (\<lambda>a b. snd a \<ge> snd b) ?rows"
    unfolding find_users_rows_def by (intro sorted_wrt_filter tag_groups_ranked)
  from 1 2 3 show "\<exists>rows. FindUsers c maxResults users utags uid req opt
                   = map (\<lambda>g. found_user c (req @ opt) (fst g)) rows
            \<and> (\<forall>g \<in> set rows. fst g \<in> set users
                  \<and> set req \<subseteq> set (user_index_tags utags (fst g))
                  \<and> snd g = card (set (user_index_tags utags (fst g)) \<inter> set (req @ opt)))
            \<and> sorted_wrt (\<lambda>a b. snd a \<ge> snd b) rows"
    by blast
next
  let ?rows = "find_topics_rows maxResults topics ttags req opt"
  have 1: "FindTopics maxResults topics ttags req opt
             = map (\<lambda>g. found_topic (req @ opt) (fst g)) ?rows"
    by (simp add: FindTopics_def)
  have 2: "\<forall>g \<in> set ?rows. fst g \<in> set topics
                  \<and> set req \<subseteq> set (topic_index_tags ttags (fst g))
                  \<and> snd g = card (set (topic_index_tags ttags (fst g)) \<inter> set (req @ opt))"
  proof
    fix g assume "g \<in> set ?rows"
    then have "g \<in> set (tag_groups (filter (\<lambda>t. t_deletedat t = None) topics)
                          (topic_index_tags ttags) req opt maxResults)"
      by (simp add: find_topics_rows_def)
    from tag_groups_sound [OF distinct_topic_index_tags [OF assms(2)] this]
    show "fst g \<in> set topics
                  \<and> set req \<subseteq> set (topic_index_tags ttags (fst g))
                  \<and> snd g = card (set (topic_index_tags ttags (fst g)) \<inter> set (req @ opt))"
      by simp
  qed
  have 3: "sorted_wrt (\<lambda>a b. snd a \<ge> snd b) ?rows"
    unfolding find_topics_rows_def by (rule tag_groups_ranked)
  from 1 2 3 show "\<exists>rows. FindTopics maxResults topics ttags req opt
                   = map (\<lambda>g. found_topic (req @ opt) (fst g)) rows
            \<and> (\<forall>g \<in> set rows. fst g \<in> set topics
                  \<and> set req \<subseteq> set (topic_index_tags ttags (fst g))
                  \<and> snd g = card (set (topic_index_tags ttags (fst g)) \<inter> set (req @ opt)))
            \<and> sorted_wrt (\<lambda>a b. snd a \<ge> snd b) rows"
    by blast
qed

theorem tag_search_required_and_ranked_witness:
  "distinct (map (\<lambda>t. (ut_userid t, ut_tag t)) sample_usertags)
   \<and> distinct (map (\<lambda>r. (tt_topic r, tt_tag r)) sample_topictags)
   \<and> (\<exists>rows. FindUsers plain_codec 1024 sample_users sample_usertags 3 [''tel:1''] [''email:a@b.c'']
                 = map (\<lambda>g. found_user plain_codec ([''tel:1''] @ [''email:a@b.c'']) (fst g)) rows
          \<and> (\<forall>g \<in> set rows. fst g \<in> set sample_users
                \<and> set [''tel:1''] \<subseteq> set (user_index_tags sample_usertags (fst g))
                \<and> snd g = card (set (user_index_tags sample_usertags (fst g))
                                  \<inter> set ([''tel:1''] @ [''email:a@b.c''])))
          \<and> sorted_wrt (\<lambda>a b. snd a \<ge> snd b) rows)
   \<and> map sub_User (FindUsers plain_codec 1024 sample_users sample_usertags 3
                      [''tel:1''] [''email:a@b.c'']) = [''1'', ''2'']
   \<and> map sub_Topic (FindTopics 1024 sample_topics sample_topictags [''travel''] [''food''])
        = [''grpS'']"
proof -
  have h1: "distinct (map (\<lambda>t. (ut_userid t, ut_tag t)) sample_usertags)"
    by (simp add: sample_usertags_def)
  have h2: "distinct (map (\<lambda>r. (tt_topic r, tt_tag r)) sample_topictags)"
    by (simp add: sample_topictags_def)
  have e1: "map sub_User (FindUsers plain_codec 1024 sample_users sample_usertags 3
                      [''tel:1''] [''email:a@b.c'']) = [''1'', ''2'']"
    by code_simp
  have e2: "map sub_Topic (FindTopics 1024 sample_topics sample_topictags [''travel''] [''food''])
        = [''grpS'']"
    by code_simp
  note t = tag_search_required_and_ranked [OF h1 h2, where c = plain_codec and maxResults = 1024
      and users = sample_users and uid = 3 and req = "[''tel:1'']" and opt = "[''email:a@b.c'']",
      THEN conjunct1]
  from h1 h2 e1 e2 t show ?thesis by blast
qed

subsection \<open>The querying user is not found\<close>

lemma FindUsers_rows:
  assumes "s \<in> set (FindUsers c maxResults users utags uid req opt)"
  shows "\<exists>u \<in> set users. u_id u \<noteq> DecodeUid c uid \<and> s = found_user c (req @ opt) u"
proof -
  from assms obtain g where g: "g \<in> set (find_users_rows maxResults users utags req opt)"
    and n: "u_id (fst g) \<noteq> DecodeUid c uid" and s: "s = found_user c (req @ opt) (fst g)"
    by (auto simp: FindUsers_def)
  from g have "fst g \<in> set users"
    using tag_groups_subset [of g "filter (\<lambda>u. u_deletedat u = None) users"]
    by (simp add: find_users_rows_def)
  with n s show ?thesis by blast
qed

text \<open>
  Claim C10. \<open>FindUsers\<close> skips the row of the querying user: every subscription it
  returns is built from a user row whose id differs from the decoded \<open>uid\<close>, and, under
  the contract of the codec, with valid ids in the table and a \<open>uid\<close> whose string
  decodes to its own key, no returned subscription has the string of \<open>uid\<close> as its
  \<open>User\<close>.
\<close>

theorem FindUsers_excludes_caller:
  assumes "codec_contract c"
    and "\<forall>u \<in> set users. valid_id (u_id u)"
    and "decodeUidString c (UidString c uid) = DecodeUid c uid"
  shows "\<forall>s \<in> set (FindUsers c maxResults users utags uid req opt).
           sub_User s \<noteq> UidString c uid
           \<and> (\<exists>u \<in> set users. u_id u \<noteq> DecodeUid c uid \<and> s = found_user c (req @ opt) u)"
proof
  fix s assume "s \<in> set (FindUsers c maxResults users utags uid req opt)"
  from FindUsers_rows [OF this] obtain u where u: "u \<in> set users"
    "u_id u \<noteq> DecodeUid c uid" "s = found_user c (req @ opt) u" by blast
  have su: "sub_User s = opaque c (u_id u)"
    by (simp add: u(3) found_user_def opaque_def zero_Subscription_def)
  have "decodeUidString c (opaque c (u_id u)) = u_id u"
    using assms(1,2) u(1) by (simp add: codec_contract_def)
  then have "opaque c (u_id u) \<noteq> UidString c uid" using assms(3) u(2) by auto
  with su u show "sub_User s \<noteq> UidString c uid
           \<and> (\<exists>u \<in> set users. u_id u \<noteq> DecodeUid c uid \<and> s = found_user c (req @ opt) u)"
    by auto
qed

theorem FindUsers_excludes_caller_witness:
  "codec_contract plain_codec \<and> list_all (\<lambda>u. valid_id (u_id u)) sample_users
   \<and> decodeUidString plain_codec (UidString plain_codec 1) = DecodeUid plain_codec 1
   \<and> list_all (\<lambda>s. sub_User s \<noteq> UidString plain_codec 1)
         (FindUsers plain_codec 1024 sample_users sample_usertags 1 [] [''email:a@b.c'', ''tel:1''])
   \<and> map sub_User (FindUsers plain_codec 1024 sample_users sample_usertags 1 []
                      [''email:a@b.c'', ''tel:1'']) = [''2'', ''3'']
   \<and> map (\<lambda>g. u_id (fst g)) (find_users_rows 1024 sample_users sample_usertags []
                                [''email:a@b.c'', ''tel:1'']) = [1, 2, 3]"
proof -
  have h2: "\<forall>u \<in> set sample_users. valid_id (u_id u)"
    by (simp add: sample_users_def sample_user_def valid_id_def)
  have h3: "decodeUidString plain_codec (UidString plain_codec 1) = DecodeUid plain_codec 1"
    by code_simp
  have e1: "map sub_User (FindUsers plain_codec 1024 sample_users sample_usertags 1 []
                      [''email:a@b.c'', ''tel:1'']) = [''2'', ''3'']"
    by code_simp
  have e2: "map (\<lambda>g. u_id (fst g)) (find_users_rows 1024 sample_users sample_usertags []
                                [''email:a@b.c'', ''tel:1'']) = [1, 2, 3]"
    by code_simp
  note t = FindUsers_excludes_caller [OF plain_codec_contract h2 h3, where maxResults = 1024
      and utags = sample_usertags and req = "[]" and opt = "[''email:a@b.c'', ''tel:1'']"]
  from t have t': "list_all (\<lambda>s. sub_User s \<noteq> UidString plain_codec 1)
         (FindUsers plain_codec 1024 sample_users sample_usertags 1 [] [''email:a@b.c'', ''tel:1''])"
    by (simp add: list_all_iff)
  from h2 have h2': "list_all (\<lambda>u. valid_id (u_id u)) sample_users" by (simp add: list_all_iff)
  from t' h2' h3 e1 e2 plain_codec_contract show ?thesis by blast
qed

end
